theory Spec2Isabelle
  imports Complex_Main
begin

section \<open>The cache sizing registry of \<^verbatim>\<open>synapse/config/cache.py\<close>\<close>

text \<open>
  The module keeps three process-wide variables: the registry \<^verbatim>\<open>_CACHES\<close> (cache name to
  resize callback), the number \<^verbatim>\<open>DEFAULT_CACHE_SIZE_FACTOR\<close> and the optional callback
  \<^verbatim>\<open>_ENSURE_CORRECT_CACHE_SIZING\<close>. \<^verbatim>\<open>add_resizable_cache\<close> registers a cache,
  \<^verbatim>\<open>CacheConfig.read_config\<close> loads a parsed configuration and
  \<^verbatim>\<open>CacheConfig._reset\<close> restores the defaults. The three are modelled as functions on an
  explicit state; an exception is a result that carries the state reached when it was raised,
  since the code undoes nothing. Calls are made one after the other, from one thread.
\<close>

subsection \<open>Python values\<close>

text \<open>
  The values a parsed YAML document holds. The code never computes with a float (it only
  converts strings to floats, tests \<^verbatim>\<open>isinstance\<close> and passes the value on), so the type
  \<open>'f\<close> of floats is a parameter. A \<^verbatim>\<open>dict\<close> is an association list in insertion order,
  which is the order Python (3.7 and later) iterates in. The keys of a mapping of the file
  are values of any kind (YAML allows \<^verbatim>\<open>1: 2\<close>); the list stands for a \<^verbatim>\<open>dict\<close>, so its
  keys are pairwise different. The code looks keys up by strings only, and a string is equal
  to no value of another kind. Strings are lists of code points below 256.
\<close>

datatype 'f pyval =
    PNone
  | PBool bool
  | PInt int
  | PFloat 'f
  | PStr string
  | PList "'f pyval list"
  | PDict "('f pyval \<times> 'f pyval) list"

type_synonym 'f pydict = "('f pyval \<times> 'f pyval) list"

text \<open>\<^verbatim>\<open>self.cache_factors\<close>: the loop of \<^verbatim>\<open>read_config\<close> stores under lowercased
  strings only.\<close>

type_synonym 'f factors = "(string \<times> 'f pyval) list"

datatype error =
    ConfigError string
  | ValueError
  | AttributeError
  | SizeParseError

text \<open>
  What the module takes from outside itself: the conversion \<^verbatim>\<open>float(s)\<close> of a string
  (\<open>None\<close> when it raises \<^verbatim>\<open>ValueError\<close>), the float literal \<^verbatim>\<open>0.5\<close>, the truth value
  of a float (\<^verbatim>\<open>x != 0.0\<close>), and \<^verbatim>\<open>Config.parse_size\<close>, which is defined in
  \<^verbatim>\<open>_base.py\<close> (\<open>None\<close> when it raises; the exception is recorded as
  \<open>SizeParseError\<close>).
\<close>

record 'f runtime =
  float_of_str :: "string \<Rightarrow> 'f option"
  float_half :: "'f"
  float_truthy :: "'f \<Rightarrow> bool"
  parse_size :: "'f pyval \<Rightarrow> 'f pyval option"

text \<open>\<^verbatim>\<open>isinstance(x, (int, float))\<close>: \<^verbatim>\<open>bool\<close> is a subclass of \<^verbatim>\<open>int\<close>.\<close>

fun is_number :: "'f pyval \<Rightarrow> bool" where
  "is_number (PBool b) = True"
| "is_number (PInt i) = True"
| "is_number (PFloat x) = True"
| "is_number v = False"

text \<open>The truth value of an object, as \<^verbatim>\<open>or\<close> tests it.\<close>

fun truthy :: "'f runtime \<Rightarrow> 'f pyval \<Rightarrow> bool" where
  "truthy rt PNone = False"
| "truthy rt (PBool b) = b"
| "truthy rt (PInt i) = (i \<noteq> 0)"
| "truthy rt (PFloat x) = float_truthy rt x"
| "truthy rt (PStr s) = (s \<noteq> [])"
| "truthy rt (PList xs) = (xs \<noteq> [])"
| "truthy rt (PDict d) = (d \<noteq> [])"

definition py_or :: "'f runtime \<Rightarrow> 'f pyval \<Rightarrow> 'f pyval \<Rightarrow> 'f pyval" where
  "py_or rt a b = (if truthy rt a then a else b)"

subsection \<open>Strings\<close>

text \<open>
  \<^verbatim>\<open>str.lower\<close> on code points below 256: the letters A to Z and the capital letters of
  Latin-1 (U+00C0 to U+00DE without the multiplication sign U+00D7) move up by 32.
\<close>

definition lower_char :: "char \<Rightarrow> char" where
  "lower_char c =
     (let n = (of_char c :: nat)
      in if (65 \<le> n \<and> n \<le> 90) \<or> (192 \<le> n \<and> n \<le> 214) \<or> (216 \<le> n \<and> n \<le> 222)
         then char_of (n + 32) else c)"

definition lower :: "string \<Rightarrow> string" where
  "lower s = map lower_char s"

definition startswith :: "string \<Rightarrow> string \<Rightarrow> bool" where
  "startswith s p = (take (length p) s = p)"

text \<open>\<^verbatim>\<open>cache.lower()\<close> for a key of a mapping: of the values modelled here only a string
  has the method; on the others the call raises \<^verbatim>\<open>AttributeError\<close>, which is \<open>None\<close>.\<close>

fun str_lower :: "'f pyval \<Rightarrow> string option" where
  "str_lower (PStr s) = Some (lower s)"
| "str_lower v = None"

definition CACHE_PREFIX :: string where
  "CACHE_PREFIX = ''SYNAPSE_CACHE_FACTOR''"

subsection \<open>Dictionaries\<close>

text \<open>\<^verbatim>\<open>d.get(k)\<close>, \<^verbatim>\<open>d.get(k, default)\<close>, \<^verbatim>\<open>d[k] = v\<close> and \<^verbatim>\<open>d.update(other)\<close>.
  An assignment to a key that is present keeps its place in the iteration order.\<close>

fun dict_get :: "('k \<times> 'v) list \<Rightarrow> 'k \<Rightarrow> 'v option" where
  "dict_get [] k = None"
| "dict_get ((k', v) # d) k = (if k' = k then Some v else dict_get d k)"

definition dict_get_default :: "('k \<times> 'v) list \<Rightarrow> 'k \<Rightarrow> 'v \<Rightarrow> 'v" where
  "dict_get_default d k dflt = (case dict_get d k of None \<Rightarrow> dflt | Some v \<Rightarrow> v)"

fun dict_set :: "('k \<times> 'v) list \<Rightarrow> 'k \<Rightarrow> 'v \<Rightarrow> ('k \<times> 'v) list" where
  "dict_set [] k v = [(k, v)]"
| "dict_set ((k', v') # d) k v = (if k' = k then (k', v) # d else (k', v') # dict_set d k v)"

fun dict_update :: "('k \<times> 'v) list \<Rightarrow> ('k \<times> 'v) list \<Rightarrow> ('k \<times> 'v) list" where
  "dict_update d [] = d"
| "dict_update d ((k, v) # other) = dict_update (dict_set d k v) other"

subsection \<open>The state of the module\<close>

text \<open>
  The callback installed by \<^verbatim>\<open>read_config\<close> is the closure \<^verbatim>\<open>ensure_cache_sizes\<close>, which
  reads \<^verbatim>\<open>self.cache_factors\<close> and \<^verbatim>\<open>self.global_factor\<close> when it is called. The state
  therefore holds the attributes of every \<^verbatim>\<open>CacheConfig\<close> instance (an attribute that was
  never assigned is \<open>None\<close>), and the installed callback is the instance it closes over.

  A resize callback is an opaque value of type \<open>'cb\<close>. Calling it is recorded in the log
  \<open>calls\<close>, with the factor it was given; it is taken to return normally and to leave the
  module's variables alone.
\<close>

record 'f cache_config =
  event_cache_size :: "'f pyval option"
  global_factor :: "'f pyval option"
  cache_factors :: "'f factors option"

record ('f, 'cb) state =
  CACHES :: "(string \<times> 'cb) list"
  DEFAULT_CACHE_SIZE_FACTOR :: "'f pyval"
  ENSURE_CORRECT_CACHE_SIZING :: "nat option"
  objs :: "nat \<Rightarrow> 'f cache_config"
  calls :: "('cb \<times> 'f pyval) list"

datatype ('f, 'cb) outcome =
    Returns "('f, 'cb) state"
  | Raises error "('f, 'cb) state"

fun state_of :: "('f, 'cb) outcome \<Rightarrow> ('f, 'cb) state" where
  "state_of (Returns s) = s"
| "state_of (Raises e s) = s"

fun returns :: "('f, 'cb) outcome \<Rightarrow> bool" where
  "returns (Returns s) = True"
| "returns (Raises e s) = False"

fun raised :: "('f, 'cb) outcome \<Rightarrow> error option" where
  "raised (Returns s) = None"
| "raised (Raises e s) = Some e"

text \<open>\<^verbatim>\<open>float(os.environ.get(_CACHE_PREFIX, 0.5))\<close>, for the process environment
  \<open>os_environ\<close>.\<close>

definition default_from_environ :: "'f runtime \<Rightarrow> (string \<times> string) list \<Rightarrow> 'f pyval option" where
  "default_from_environ rt os_environ =
     (case dict_get os_environ CACHE_PREFIX of
        None \<Rightarrow> Some (PFloat (float_half rt))
      | Some val \<Rightarrow> (case float_of_str rt val of None \<Rightarrow> None | Some x \<Rightarrow> Some (PFloat x)))"

text \<open>The state after the module has been imported (lines 21 to 43), when line 23 does not
  raise.\<close>

definition no_attributes :: "'f cache_config" where
  "no_attributes = \<lparr>event_cache_size = None, global_factor = None, cache_factors = None\<rparr>"

definition initial_state :: "'f pyval \<Rightarrow> ('f, 'cb) state" where
  "initial_state d =
     \<lparr>CACHES = [], DEFAULT_CACHE_SIZE_FACTOR = d, ENSURE_CORRECT_CACHE_SIZING = None,
      objs = (\<lambda>_. no_attributes), calls = []\<rparr>"

definition module_init :: "'f runtime \<Rightarrow> (string \<times> string) list \<Rightarrow> ('f, 'cb) state option" where
  "module_init rt os_environ =
     (case default_from_environ rt os_environ of
        None \<Rightarrow> None
      | Some d \<Rightarrow> Some (initial_state d))"

subsection \<open>\<^verbatim>\<open>ensure_cache_sizes\<close> and \<^verbatim>\<open>add_resizable_cache\<close>\<close>

text \<open>The loop of the closure over \<^verbatim>\<open>_CACHES.items()\<close>. Each iteration reads the two
  attributes of \<open>self\<close>, which raises \<^verbatim>\<open>AttributeError\<close> if one was never assigned.\<close>

fun ensure_loop :: "nat \<Rightarrow> (string \<times> 'cb) list \<Rightarrow> ('f, 'cb) state \<Rightarrow> ('f, 'cb) outcome" where
  "ensure_loop self [] s = Returns s"
| "ensure_loop self ((cache_name, callback) # rest) s =
     (case cache_factors (objs s self) of
        None \<Rightarrow> Raises AttributeError s
      | Some factors \<Rightarrow>
          (case global_factor (objs s self) of
             None \<Rightarrow> Raises AttributeError s
           | Some g \<Rightarrow>
               ensure_loop self rest
                 (s\<lparr>calls := calls s @ [(callback, dict_get_default factors cache_name g)]\<rparr>)))"

definition ensure_cache_sizes :: "nat \<Rightarrow> ('f, 'cb) state \<Rightarrow> ('f, 'cb) outcome" where
  "ensure_cache_sizes self s = ensure_loop self (CACHES s) s"

definition add_resizable_cache :: "string \<Rightarrow> 'cb \<Rightarrow> ('f, 'cb) state \<Rightarrow> ('f, 'cb) outcome" where
  "add_resizable_cache cache_name cache_resize_callback s =
     (let s1 = s\<lparr>CACHES := dict_set (CACHES s) (lower cache_name) cache_resize_callback\<rparr>
      in case ENSURE_CORRECT_CACHE_SIZING s1 of
           None \<Rightarrow> Returns s1
         | Some self \<Rightarrow> ensure_cache_sizes self s1)"

subsection \<open>\<^verbatim>\<open>CacheConfig._reset\<close>\<close>

text \<open>The first statement converts the environment variable; if that raises, nothing has
  been cleared.\<close>

definition reset :: "'f runtime \<Rightarrow> (string \<times> string) list \<Rightarrow> ('f, 'cb) state \<Rightarrow> ('f, 'cb) outcome" where
  "reset rt os_environ s =
     (case default_from_environ rt os_environ of
        None \<Rightarrow> Raises ValueError s
      | Some d \<Rightarrow>
          Returns (s\<lparr>DEFAULT_CACHE_SIZE_FACTOR := d,
                     ENSURE_CORRECT_CACHE_SIZING := None,
                     CACHES := []\<rparr>))"

subsection \<open>\<^verbatim>\<open>CacheConfig.read_config\<close>\<close>

text \<open>The dictionary comprehension of lines 88 to 92 over \<^verbatim>\<open>self._environ.items()\<close>:
  \<open>None\<close> when \<^verbatim>\<open>float(val)\<close> raises for a variable with the prefix.\<close>

fun environ_factors ::
  "'f runtime \<Rightarrow> (string \<times> string) list \<Rightarrow> 'f pydict \<Rightarrow> 'f pydict option" where
  "environ_factors rt [] acc = Some acc"
| "environ_factors rt ((key, val) # rest) acc =
     (if startswith key (CACHE_PREFIX @ ''_'')
      then (case float_of_str rt val of
              None \<Rightarrow> None
            | Some x \<Rightarrow>
                environ_factors rt rest
                  (dict_set acc (PStr (lower (drop (length CACHE_PREFIX + 1) key))) (PFloat x)))
      else environ_factors rt rest acc)"

text \<open>The loop of lines 102 to 107 over \<^verbatim>\<open>individual_factors.items()\<close>. It returns the
  dictionary \<^verbatim>\<open>self.cache_factors\<close> as the loop leaves it and the error it raised, if any.
  Both branches of the body call \<^verbatim>\<open>cache.lower()\<close>, line 105 to build the message and
  line 107 to store the factor, so a key that is not a string ends the loop with
  \<^verbatim>\<open>AttributeError\<close> whatever its value.\<close>

definition not_a_number_message :: "string \<Rightarrow> string" where
  "not_a_number_message cache = ''caches.per_cache_factors.'' @ cache @ '' must be a number''"

fun factors_loop :: "'f pydict \<Rightarrow> 'f factors \<Rightarrow> 'f factors \<times> error option" where
  "factors_loop [] acc = (acc, None)"
| "factors_loop ((cache, factor) # rest) acc =
     (if \<not> is_number factor
      then (case str_lower cache of
              None \<Rightarrow> (acc, Some AttributeError)
            | Some name \<Rightarrow> (acc, Some (ConfigError (not_a_number_message name))))
      else (case str_lower cache of
              None \<Rightarrow> (acc, Some AttributeError)
            | Some name \<Rightarrow> factors_loop rest (dict_set acc name factor)))"

definition set_event_cache_size ::
  "nat \<Rightarrow> 'f pyval \<Rightarrow> ('f, 'cb) state \<Rightarrow> ('f, 'cb) state" where
  "set_event_cache_size self v s =
     s\<lparr>objs := (objs s)(self := (objs s self)\<lparr>event_cache_size := Some v\<rparr>)\<rparr>"

definition set_global_factor ::
  "nat \<Rightarrow> 'f pyval \<Rightarrow> ('f, 'cb) state \<Rightarrow> ('f, 'cb) state" where
  "set_global_factor self v s =
     s\<lparr>objs := (objs s)(self := (objs s self)\<lparr>global_factor := Some v\<rparr>)\<rparr>"

definition set_cache_factors ::
  "nat \<Rightarrow> 'f factors \<Rightarrow> ('f, 'cb) state \<Rightarrow> ('f, 'cb) state" where
  "set_cache_factors self d s =
     s\<lparr>objs := (objs s)(self := (objs s self)\<lparr>cache_factors := Some d\<rparr>)\<rparr>"

text \<open>
  \<open>read_config rt self environ config s\<close>: the call \<^verbatim>\<open>self.read_config(config)\<close> on the
  instance \<open>self\<close>, whose \<^verbatim>\<open>_environ\<close> has the items \<open>environ\<close>, in the state \<open>s\<close>.
\<close>

definition read_config ::
  "'f runtime \<Rightarrow> nat \<Rightarrow> (string \<times> string) list \<Rightarrow> 'f pydict \<Rightarrow> ('f, 'cb) state
     \<Rightarrow> ('f, 'cb) outcome" where
  "read_config rt self environ config s =
     (case parse_size rt (dict_get_default config (PStr ''event_cache_size'') (PStr ''10K'')) of
        None \<Rightarrow> Raises SizeParseError s
      | Some sz \<Rightarrow>
          let s1 = set_event_cache_size self sz s
          in (case dict_get_default config (PStr ''caches'') (PDict []) of
                PDict cache_config \<Rightarrow>
                  let g = dict_get_default cache_config (PStr ''global_factor'')
                            (DEFAULT_CACHE_SIZE_FACTOR s1);
                      s2 = set_global_factor self g s1
                  in if \<not> is_number g
                     then Raises (ConfigError ''caches.global_factor must be a number.'') s2
                     else
                       let s3 = s2\<lparr>DEFAULT_CACHE_SIZE_FACTOR := g\<rparr>
                       in (case environ_factors rt environ [] of
                             None \<Rightarrow> Raises ValueError s3
                           | Some individual_factors \<Rightarrow>
                               (case py_or rt (dict_get_default cache_config
                                                 (PStr ''per_cache_factors'') (PDict []))
                                       (PDict []) of
                                  PDict individual_factors_config \<Rightarrow>
                                    (case factors_loop
                                            (dict_update individual_factors
                                               individual_factors_config) [] of
                                       (factors, Some e) \<Rightarrow>
                                         Raises e (set_cache_factors self factors s3)
                                     | (factors, None) \<Rightarrow>
                                         ensure_cache_sizes self
                                           ((set_cache_factors self factors s3)
                                              \<lparr>ENSURE_CORRECT_CACHE_SIZING := Some self\<rparr>))
                                | _ \<Rightarrow>
                                    Raises (ConfigError
                                      ''caches.per_cache_factors must be a dictionary'') s3))
              | _ \<Rightarrow> Raises AttributeError s1))"

text \<open>The cache names for which the environment holds a factor: the keys of the
  comprehension of lines 88 to 92.\<close>

definition environ_names :: "(string \<times> string) list \<Rightarrow> string list" where
  "environ_names environ =
     map (\<lambda>(key, val). lower (drop (length CACHE_PREFIX + 1) key))
       (filter (\<lambda>(key, val). startswith key (CACHE_PREFIX @ ''_'')) environ)"

text \<open>The entries of a mapping under the names the loop of lines 102 to 107 stores them
  by: the keys that are strings, lowercased, in the order of the mapping.\<close>

fun lowered :: "'f pydict \<Rightarrow> 'f factors" where
  "lowered [] = []"
| "lowered ((k, v) # d) =
     (case str_lower k of None \<Rightarrow> lowered d | Some name \<Rightarrow> (name, v) # lowered d)"

subsection \<open>Sequences of calls\<close>

text \<open>
  What a client of the module can do, one call after the other. A call that raises leaves
  the state it had reached, and the client goes on from there.
\<close>

datatype ('f, 'cb) action =
    Register string 'cb
  | Load nat "(string \<times> string) list" "'f pydict"
  | Reset "(string \<times> string) list"

fun perform :: "'f runtime \<Rightarrow> ('f, 'cb) action \<Rightarrow> ('f, 'cb) state \<Rightarrow> ('f, 'cb) outcome" where
  "perform rt (Register cache_name callback) s = add_resizable_cache cache_name callback s"
| "perform rt (Load self environ config) s = read_config rt self environ config s"
| "perform rt (Reset os_environ) s = reset rt os_environ s"

fun run :: "'f runtime \<Rightarrow> ('f, 'cb) action list \<Rightarrow> ('f, 'cb) state \<Rightarrow> ('f, 'cb) state" where
  "run rt [] s = s"
| "run rt (a # as) s = run rt as (state_of (perform rt a s))"

text \<open>No \<^verbatim>\<open>read_config\<close> of the sequence returns normally.\<close>

fun no_load_completes :: "'f runtime \<Rightarrow> ('f, 'cb) action list \<Rightarrow> ('f, 'cb) state \<Rightarrow> bool" where
  "no_load_completes rt [] s = True"
| "no_load_completes rt (a # as) s =
     ((case a of Load self environ config \<Rightarrow> \<not> returns (perform rt a s) | _ \<Rightarrow> True)
      \<and> no_load_completes rt as (state_of (perform rt a s)))"

text \<open>The call is a \<^verbatim>\<open>read_config\<close> on the instance \<open>self\<close>.\<close>

fun loads_on :: "nat \<Rightarrow> ('f, 'cb) action \<Rightarrow> bool" where
  "loads_on self (Load i environ config) = (i = self)"
| "loads_on self (Register cache_name callback) = False"
| "loads_on self (Reset os_environ) = False"

text \<open>The attributes the installed closure reads have been assigned.\<close>

definition installed_ok :: "('f, 'cb) state \<Rightarrow> bool" where
  "installed_ok s =
     (case ENSURE_CORRECT_CACHE_SIZING s of
        None \<Rightarrow> True
      | Some self \<Rightarrow>
          global_factor (objs s self) \<noteq> None \<and> cache_factors (objs s self) \<noteq> None)"

subsection \<open>A runtime and a state for the examples\<close>

text \<open>Floats are rational numbers here; \<^verbatim>\<open>float\<close> knows three literals and
  \<^verbatim>\<open>parse_size\<close> the default \<^verbatim>\<open>"10K"\<close>. Both raise on every other argument, as the
  functions of the Python runtime and of \<^verbatim>\<open>_base.py\<close> do on \<^verbatim>\<open>"abc"\<close>.\<close>

definition example_runtime :: "rat runtime" where
  "example_runtime =
     \<lparr>float_of_str = map_of [(''5'', 5), (''2'', 2), (''0.5'', 1 / 2)],
      float_half = 1 / 2,
      float_truthy = (\<lambda>x. x \<noteq> 0),
      parse_size = map_of [(PStr ''10K'', PInt 10240)]\<rparr>"

definition example_state :: "(rat, nat) state" where
  "example_state = initial_state (PFloat (1 / 2))"

section \<open>Properties\<close>

subsection \<open>Strings and dictionaries\<close>

lemma lower_char_idem: "lower_char (lower_char c) = lower_char c"
  by (simp add: lower_char_def Let_def)

lemma lower_idem: "lower (lower s) = lower s"
  by (simp add: lower_def lower_char_idem)

lemma dict_get_map_of: "dict_get d k = map_of d k"
  by (induction d) auto

lemma dict_get_None_iff: "dict_get d k = None \<longleftrightarrow> k \<notin> set (map fst d)"
  by (simp add: dict_get_map_of map_of_eq_None_iff)

lemma dict_get_append:
  "dict_get (xs @ ys) k = (case dict_get xs k of None \<Rightarrow> dict_get ys k | Some v \<Rightarrow> Some v)"
  by (induction xs) auto

lemma dict_get_dict_set: "dict_get (dict_set d k v) k' = (if k' = k then Some v else dict_get d k')"
  by (induction d) auto

lemma keys_dict_set:
  "map fst (dict_set d k v) = (if dict_get d k = None then map fst d @ [k] else map fst d)"
  by (induction d) (auto split: if_splits)

lemma set_keys_dict_set: "set (map fst (dict_set d k v)) = insert k (set (map fst d))"
  unfolding keys_dict_set using dict_get_None_iff [of d k] by auto

lemma distinct_dict_set: "distinct (map fst d) \<Longrightarrow> distinct (map fst (dict_set d k v))"
  unfolding keys_dict_set using dict_get_None_iff [of d k] by auto

lemma set_keys_dict_update:
  "set (map fst (dict_update d other)) = set (map fst d) \<union> set (map fst other)"
proof (induction other arbitrary: d)
  case Nil
  show ?case by simp
next
  case (Cons e other)
  obtain k v where e: "e = (k, v)" by (cases e)
  show ?case unfolding e by (simp add: Cons.IH set_keys_dict_set del: set_map)
qed

lemma distinct_dict_update: "distinct (map fst d) \<Longrightarrow> distinct (map fst (dict_update d other))"
  by (induction other arbitrary: d) (auto simp: distinct_dict_set)

lemma dict_get_dict_update:
  "dict_get (dict_update d other) k =
     (case dict_get (rev other) k of None \<Rightarrow> dict_get d k | Some v \<Rightarrow> Some v)"
  by (induction other arbitrary: d)
     (auto simp: dict_get_dict_set dict_get_append split: option.splits)

lemma in_dict_update:
  assumes "distinct (map fst d)" and "(k, v) \<in> set d"
  shows "(k, v) \<in> set (dict_update ef d)"
proof -
  from assms have "map_of (rev d) k = Some v"
    by (simp add: map_of_eq_Some_iff [of "rev d"] rev_map [symmetric])
  then have "dict_get (dict_update ef d) k = Some v"
    unfolding dict_get_dict_update by (simp add: dict_get_map_of)
  then show ?thesis by (simp add: dict_get_map_of map_of_SomeD)
qed

subsection \<open>The iterations and the cases of \<^verbatim>\<open>read_config\<close>\<close>

lemma ensure_loop_Returns:
  "cache_factors (objs s self) = Some m \<Longrightarrow> global_factor (objs s self) = Some g \<Longrightarrow>
   ensure_loop self xs s =
     Returns (s\<lparr>calls := calls s @ map (\<lambda>(name, callback). (callback, dict_get_default m name g)) xs\<rparr>)"
  by (induction xs arbitrary: s) auto

lemma factors_loop_error:
  "snd (factors_loop xs acc) =
     (case find (\<lambda>e. \<not> is_number (snd e) \<or> str_lower (fst e) = None) xs of
        None \<Rightarrow> None
      | Some e \<Rightarrow>
          (case str_lower (fst e) of
             None \<Rightarrow> Some AttributeError
           | Some name \<Rightarrow> Some (ConfigError (not_a_number_message name))))"
  by (induction xs arbitrary: acc) (auto split: option.splits)

lemma read_config_cases [case_names size_error no_section bad_global bad_environ not_dict bad_factor ok]:
  fixes s :: "('f, 'cb) state"
  assumes
    "parse_size rt (dict_get_default config (PStr ''event_cache_size'') (PStr ''10K'')) = None \<Longrightarrow>
     read_config rt self environ config s = Raises SizeParseError s \<Longrightarrow> P"
   and
    "\<And>sz. parse_size rt (dict_get_default config (PStr ''event_cache_size'') (PStr ''10K'')) = Some sz \<Longrightarrow>
      (\<forall>cc. dict_get_default config (PStr ''caches'') (PDict []) \<noteq> PDict cc) \<Longrightarrow>
      read_config rt self environ config s = Raises AttributeError (set_event_cache_size self sz s) \<Longrightarrow> P"
   and
    "\<And>sz cc g. parse_size rt (dict_get_default config (PStr ''event_cache_size'') (PStr ''10K'')) = Some sz \<Longrightarrow>
      dict_get_default config (PStr ''caches'') (PDict []) = PDict cc \<Longrightarrow>
      g = dict_get_default cc (PStr ''global_factor'') (DEFAULT_CACHE_SIZE_FACTOR s) \<Longrightarrow>
      \<not> is_number g \<Longrightarrow>
      read_config rt self environ config s =
        Raises (ConfigError ''caches.global_factor must be a number.'')
          (set_global_factor self g (set_event_cache_size self sz s)) \<Longrightarrow> P"
   and
    "\<And>sz cc g. parse_size rt (dict_get_default config (PStr ''event_cache_size'') (PStr ''10K'')) = Some sz \<Longrightarrow>
      dict_get_default config (PStr ''caches'') (PDict []) = PDict cc \<Longrightarrow>
      g = dict_get_default cc (PStr ''global_factor'') (DEFAULT_CACHE_SIZE_FACTOR s) \<Longrightarrow>
      is_number g \<Longrightarrow>
      environ_factors rt environ [] = None \<Longrightarrow>
      read_config rt self environ config s =
        Raises ValueError
          ((set_global_factor self g (set_event_cache_size self sz s))
             \<lparr>DEFAULT_CACHE_SIZE_FACTOR := g\<rparr>) \<Longrightarrow> P"
   and
    "\<And>sz cc g ef. parse_size rt (dict_get_default config (PStr ''event_cache_size'') (PStr ''10K'')) = Some sz \<Longrightarrow>
      dict_get_default config (PStr ''caches'') (PDict []) = PDict cc \<Longrightarrow>
      g = dict_get_default cc (PStr ''global_factor'') (DEFAULT_CACHE_SIZE_FACTOR s) \<Longrightarrow>
      is_number g \<Longrightarrow>
      environ_factors rt environ [] = Some ef \<Longrightarrow>
      (\<forall>d. py_or rt (dict_get_default cc (PStr ''per_cache_factors'') (PDict [])) (PDict []) \<noteq> PDict d) \<Longrightarrow>
      read_config rt self environ config s =
        Raises (ConfigError ''caches.per_cache_factors must be a dictionary'')
          ((set_global_factor self g (set_event_cache_size self sz s))
             \<lparr>DEFAULT_CACHE_SIZE_FACTOR := g\<rparr>) \<Longrightarrow> P"
   and
    "\<And>sz cc g ef d m e. parse_size rt (dict_get_default config (PStr ''event_cache_size'') (PStr ''10K'')) = Some sz \<Longrightarrow>
      dict_get_default config (PStr ''caches'') (PDict []) = PDict cc \<Longrightarrow>
      g = dict_get_default cc (PStr ''global_factor'') (DEFAULT_CACHE_SIZE_FACTOR s) \<Longrightarrow>
      is_number g \<Longrightarrow>
      environ_factors rt environ [] = Some ef \<Longrightarrow>
      py_or rt (dict_get_default cc (PStr ''per_cache_factors'') (PDict [])) (PDict []) = PDict d \<Longrightarrow>
      factors_loop (dict_update ef d) [] = (m, Some e) \<Longrightarrow>
      read_config rt self environ config s =
        Raises e
          (set_cache_factors self m
            ((set_global_factor self g (set_event_cache_size self sz s))
               \<lparr>DEFAULT_CACHE_SIZE_FACTOR := g\<rparr>)) \<Longrightarrow> P"
   and
    "\<And>sz cc g ef d m. parse_size rt (dict_get_default config (PStr ''event_cache_size'') (PStr ''10K'')) = Some sz \<Longrightarrow>
      dict_get_default config (PStr ''caches'') (PDict []) = PDict cc \<Longrightarrow>
      g = dict_get_default cc (PStr ''global_factor'') (DEFAULT_CACHE_SIZE_FACTOR s) \<Longrightarrow>
      is_number g \<Longrightarrow>
      environ_factors rt environ [] = Some ef \<Longrightarrow>
      py_or rt (dict_get_default cc (PStr ''per_cache_factors'') (PDict [])) (PDict []) = PDict d \<Longrightarrow>
      factors_loop (dict_update ef d) [] = (m, None) \<Longrightarrow>
      read_config rt self environ config s =
        Returns
          ((set_cache_factors self m
            ((set_global_factor self g (set_event_cache_size self sz s))
               \<lparr>DEFAULT_CACHE_SIZE_FACTOR := g\<rparr>))
           \<lparr>ENSURE_CORRECT_CACHE_SIZING := Some self,
             calls := calls s @
               map (\<lambda>(name, callback). (callback, dict_get_default m name g)) (CACHES s)\<rparr>) \<Longrightarrow> P"
  shows P
proof (cases "parse_size rt (dict_get_default config (PStr ''event_cache_size'') (PStr ''10K''))")
  case None
  then show ?thesis using assms(1) by (simp add: read_config_def)
next
  case (Some sz)
  note sz = Some
  show ?thesis
  proof (cases "\<exists>cc. dict_get_default config (PStr ''caches'') (PDict []) = PDict cc")
    case False
    then have "read_config rt self environ config s = Raises AttributeError (set_event_cache_size self sz s)"
      using sz by (auto simp: read_config_def Let_def split: pyval.splits)
    with False sz show ?thesis using assms(2) by blast
  next
    case True
    then obtain cc where cc: "dict_get_default config (PStr ''caches'') (PDict []) = PDict cc" by blast
    define g where "g = dict_get_default cc (PStr ''global_factor'') (DEFAULT_CACHE_SIZE_FACTOR s)"
    have g': "dict_get_default cc (PStr ''global_factor'')
                (DEFAULT_CACHE_SIZE_FACTOR (set_event_cache_size self sz s)) = g"
      by (simp add: g_def set_event_cache_size_def)
    show ?thesis
    proof (cases "is_number g")
      case False
      then have "read_config rt self environ config s =
        Raises (ConfigError ''caches.global_factor must be a number.'')
          (set_global_factor self g (set_event_cache_size self sz s))"
        using sz cc g' by (simp add: read_config_def Let_def)
      then show ?thesis using assms(3) sz cc g_def False by blast
    next
      case True
      note num = True
      show ?thesis
      proof (cases "environ_factors rt environ []")
        case None
        then have "read_config rt self environ config s =
          Raises ValueError
          ((set_global_factor self g (set_event_cache_size self sz s))
             \<lparr>DEFAULT_CACHE_SIZE_FACTOR := g\<rparr>)"
          using sz cc g' num by (simp add: read_config_def Let_def)
        then show ?thesis using assms(4) sz cc g_def num None by blast
      next
        case (Some ef)
        note ef = Some
        show ?thesis
        proof (cases "\<exists>d. py_or rt (dict_get_default cc (PStr ''per_cache_factors'') (PDict [])) (PDict []) = PDict d")
          case False
          then have "read_config rt self environ config s =
            Raises (ConfigError ''caches.per_cache_factors must be a dictionary'')
            ((set_global_factor self g (set_event_cache_size self sz s))
               \<lparr>DEFAULT_CACHE_SIZE_FACTOR := g\<rparr>)"
            using sz cc g' num ef by (auto simp: read_config_def Let_def split: pyval.splits)
          then show ?thesis using assms(5) sz cc g_def num ef False by blast
        next
          case True
          then obtain d where d: "py_or rt (dict_get_default cc (PStr ''per_cache_factors'') (PDict [])) (PDict []) = PDict d"
            by blast
          obtain m r where loop: "factors_loop (dict_update ef d) [] = (m, r)"
            by (cases "factors_loop (dict_update ef d) []")
          show ?thesis
          proof (cases r)
            case None
            let ?s4 = "set_cache_factors self m
                ((set_global_factor self g (set_event_cache_size self sz s))
                   \<lparr>DEFAULT_CACHE_SIZE_FACTOR := g\<rparr>)"
            let ?s5 = "?s4\<lparr>ENSURE_CORRECT_CACHE_SIZING := Some self\<rparr>"
            have rc: "read_config rt self environ config s = ensure_cache_sizes self ?s5"
              using sz cc g' num ef d loop None by (simp add: read_config_def Let_def)
            have a: "cache_factors (objs ?s5 self) = Some m"
              by (simp add: set_cache_factors_def)
            have b: "global_factor (objs ?s5 self) = Some g"
              by (simp add: set_cache_factors_def set_global_factor_def)
            have c: "CACHES ?s5 = CACHES s" "calls ?s5 = calls s"
              by (simp_all add: set_cache_factors_def set_global_factor_def set_event_cache_size_def)
            have "read_config rt self environ config s =
               Returns (?s4\<lparr>ENSURE_CORRECT_CACHE_SIZING := Some self,
                 calls := calls s @
                   map (\<lambda>(name, callback). (callback, dict_get_default m name g)) (CACHES s)\<rparr>)"
              unfolding rc ensure_cache_sizes_def ensure_loop_Returns [OF a b] c by simp
            then show ?thesis using assms(7) sz cc g_def num ef d loop None by blast
          next
            case (Some e)
            then have "read_config rt self environ config s =
              Raises e
               (set_cache_factors self m
                ((set_global_factor self g (set_event_cache_size self sz s))
                   \<lparr>DEFAULT_CACHE_SIZE_FACTOR := g\<rparr>))"
              using sz cc g' num ef d loop by (simp add: read_config_def Let_def)
            then show ?thesis using assms(6) sz cc g_def num ef d loop Some by blast
          qed
        qed
      qed
    qed
  qed
qed

lemma set_attr_fields [simp]:
  "CACHES (set_event_cache_size self v s) = CACHES s"
  "calls (set_event_cache_size self v s) = calls s"
  "ENSURE_CORRECT_CACHE_SIZING (set_event_cache_size self v s) = ENSURE_CORRECT_CACHE_SIZING s"
  "DEFAULT_CACHE_SIZE_FACTOR (set_event_cache_size self v s) = DEFAULT_CACHE_SIZE_FACTOR s"
  "CACHES (set_global_factor self v s) = CACHES s"
  "calls (set_global_factor self v s) = calls s"
  "ENSURE_CORRECT_CACHE_SIZING (set_global_factor self v s) = ENSURE_CORRECT_CACHE_SIZING s"
  "DEFAULT_CACHE_SIZE_FACTOR (set_global_factor self v s) = DEFAULT_CACHE_SIZE_FACTOR s"
  "CACHES (set_cache_factors self d s) = CACHES s"
  "calls (set_cache_factors self d s) = calls s"
  "ENSURE_CORRECT_CACHE_SIZING (set_cache_factors self d s) = ENSURE_CORRECT_CACHE_SIZING s"
  "DEFAULT_CACHE_SIZE_FACTOR (set_cache_factors self d s) = DEFAULT_CACHE_SIZE_FACTOR s"
  by (simp_all add: set_event_cache_size_def set_global_factor_def set_cache_factors_def)

lemma set_attr_objs [simp]:
  "global_factor (objs (set_event_cache_size self v s) i) = global_factor (objs s i)"
  "cache_factors (objs (set_event_cache_size self v s) i) = cache_factors (objs s i)"
  "global_factor (objs (set_global_factor self v s) i) =
     (if i = self then Some v else global_factor (objs s i))"
  "cache_factors (objs (set_global_factor self v s) i) = cache_factors (objs s i)"
  "global_factor (objs (set_cache_factors self d s) i) = global_factor (objs s i)"
  "cache_factors (objs (set_cache_factors self d s) i) =
     (if i = self then Some d else cache_factors (objs s i))"
  by (simp_all add: set_event_cache_size_def set_global_factor_def set_cache_factors_def)

lemma returns_state_of: "returns r \<Longrightarrow> r = Returns (state_of r)"
  by (cases r) simp_all

lemma not_a_number_message_neq [simp]:
  "not_a_number_message cache \<noteq> ''caches.global_factor must be a number.''"
  "not_a_number_message cache \<noteq> ''caches.per_cache_factors must be a dictionary''"
  "''caches.global_factor must be a number.'' \<noteq> not_a_number_message cache"
  "''caches.per_cache_factors must be a dictionary'' \<noteq> not_a_number_message cache"
  by (simp_all add: not_a_number_message_def)

lemma not_a_number_message_inj:
  "not_a_number_message a = not_a_number_message b \<longleftrightarrow> a = b"
  by (simp add: not_a_number_message_def)

lemma factors_loop_not_global:
  "factors_loop xs acc = (m, Some (ConfigError ''caches.global_factor must be a number.''))
   \<Longrightarrow> False"
  using factors_loop_error [of xs acc] by (auto split: option.splits)

lemma perform_without_load:
  assumes "ENSURE_CORRECT_CACHE_SIZING s = None"
    and "case a of Load self environ config \<Rightarrow> \<not> returns (perform rt a s) | _ \<Rightarrow> True"
  shows "ENSURE_CORRECT_CACHE_SIZING (state_of (perform rt a s)) = None \<and>
         calls (state_of (perform rt a s)) = calls s"
proof (cases a)
  case (Register n cb)
  then show ?thesis using assms(1) by (simp add: add_resizable_cache_def Let_def)
next
  case (Load self environ config)
  then have nr: "\<not> returns (read_config rt self environ config s)" using assms(2) by simp
  show ?thesis unfolding Load perform.simps using nr assms(1)
    by (cases rule: read_config_cases [of rt config self environ s]) auto
next
  case (Reset os_environ)
  then show ?thesis using assms(1) by (simp add: reset_def split: option.splits)
qed

lemma run_without_load:
  "ENSURE_CORRECT_CACHE_SIZING s = None \<Longrightarrow> no_load_completes rt as s \<Longrightarrow>
   ENSURE_CORRECT_CACHE_SIZING (run rt as s) = None \<and> calls (run rt as s) = calls s"
proof (induction as arbitrary: s)
  case Nil
  then show ?case by simp
next
  case (Cons a as)
  from Cons.prems have a: "case a of Load self environ config \<Rightarrow> \<not> returns (perform rt a s) | _ \<Rightarrow> True"
    and rest: "no_load_completes rt as (state_of (perform rt a s))" by simp_all
  from perform_without_load [OF Cons.prems(1) a]
  have e: "ENSURE_CORRECT_CACHE_SIZING (state_of (perform rt a s)) = None"
    and c: "calls (state_of (perform rt a s)) = calls s" by simp_all
  from Cons.IH [OF e rest] c show ?case by simp
qed

subsection \<open>The factors the environment gives\<close>

lemma environ_factors_keys:
  "environ_factors rt environ acc = Some ef \<Longrightarrow>
   set (map fst ef) = set (map fst acc) \<union> PStr ` set (environ_names environ)"
proof (induction environ arbitrary: acc)
  case Nil
  then show ?case by (simp add: environ_names_def)
next
  case (Cons e environ)
  obtain key val where e: "e = (key, val)" by (cases e)
  show ?case
  proof (cases "startswith key (CACHE_PREFIX @ ''_'')")
    case False
    with Cons e show ?thesis by (simp add: environ_names_def)
  next
    case True
    with Cons.prems e obtain x where x: "float_of_str rt val = Some x"
      and rest: "environ_factors rt environ
                   (dict_set acc (PStr (lower (drop (length CACHE_PREFIX + 1) key))) (PFloat x))
                 = Some ef"
      by (auto split: option.splits)
    from Cons.IH [OF rest] True e show ?thesis
      by (simp add: environ_names_def set_keys_dict_set del: set_map)
  qed
qed

lemma environ_factors_distinct:
  "environ_factors rt environ acc = Some ef \<Longrightarrow> distinct (map fst acc) \<Longrightarrow>
   distinct (map fst ef)"
  by (induction rt environ acc rule: environ_factors.induct)
     (auto simp: distinct_dict_set split: if_splits option.splits)

lemma set_dict_set: "set (dict_set d k v) \<subseteq> insert (k, v) (set d)"
  by (induction d) (auto split: if_splits)

lemma set_dict_update: "set (dict_update d other) \<subseteq> set d \<union> set other"
proof (induction other arbitrary: d)
  case Nil
  show ?case by simp
next
  case (Cons e other)
  obtain k v where e: "e = (k, v)" by (cases e)
  from Cons.IH [of "dict_set d k v"] set_dict_set [of d k v] show ?case
    unfolding e by auto
qed

lemma environ_factors_numbers:
  "environ_factors rt environ acc = Some ef \<Longrightarrow> \<forall>e \<in> set acc. is_number (snd e) \<Longrightarrow>
   \<forall>e \<in> set ef. is_number (snd e)"
proof (induction rt environ acc rule: environ_factors.induct)
  case (1 rt acc)
  then show ?case by simp
next
  case (2 rt key val rest acc)
  show ?case
  proof (cases "startswith key (CACHE_PREFIX @ ''_'')")
    case False
    with 2 show ?thesis by simp
  next
    case True
    with "2.prems" obtain x where x: "float_of_str rt val = Some x"
      and rest: "environ_factors rt rest
                   (dict_set acc (PStr (lower (drop (length CACHE_PREFIX + 1) key))) (PFloat x))
                 = Some ef"
      by (auto split: option.splits)
    have "\<forall>e \<in> set (dict_set acc (PStr (lower (drop (length CACHE_PREFIX + 1) key))) (PFloat x)).
            is_number (snd e)"
      using set_dict_set [of acc "PStr (lower (drop (length CACHE_PREFIX + 1) key))" "PFloat x"]
        "2.prems"(2) by auto
    from "2.IH"(1) [OF True x rest this] show ?thesis .
  qed
qed

lemma environ_names_lower: "k \<in> set (environ_names environ) \<Longrightarrow> lower k = k"
  by (auto simp: environ_names_def lower_idem)

lemma environ_factors_str_keys:
  assumes "environ_factors rt environ [] = Some ef" and "k \<in> set (map fst ef)"
  shows "\<exists>name. k = PStr name \<and> str_lower k = Some name"
proof -
  from environ_factors_keys [OF assms(1)] assms(2)
  obtain name where "k = PStr name" "name \<in> set (environ_names environ)" by auto
  with environ_names_lower show ?thesis by auto
qed

subsection \<open>The factor the loop leaves for a name\<close>

lemma str_lower_Some: "str_lower k = Some n \<longleftrightarrow> (\<exists>c. k = PStr c \<and> lower c = n)"
  by (cases k) auto

lemma final_Cons:
  "dict_get (rev (lowered (e # xs))) n =
     (case dict_get (rev (lowered xs)) n of
        Some w \<Rightarrow> Some w
      | None \<Rightarrow> if str_lower (fst e) = Some n then Some (snd e) else None)"
  by (cases e) (auto simp: dict_get_append split: option.splits)

lemma final_None_iff:
  "dict_get (rev (lowered xs)) n = None \<longleftrightarrow> Some n \<notin> str_lower ` set (map fst xs)"
proof (induction xs)
  case Nil
  show ?case by simp
next
  case (Cons e xs)
  show ?case unfolding final_Cons using Cons by (auto split: option.splits)
qed

lemma factors_loop_get:
  "factors_loop xs acc = (m, None) \<Longrightarrow>
   dict_get m n =
     (case dict_get (rev (lowered xs)) n of
        None \<Rightarrow> dict_get acc n
      | Some w \<Rightarrow> Some w)"
proof (induction xs arbitrary: acc)
  case Nil
  then show ?case by simp
next
  case (Cons e xs)
  obtain k v where e: "e = (k, v)" by (cases e)
  from Cons.prems e obtain name where num: "is_number v"
    and name: "str_lower k = Some name"
    and rest: "factors_loop xs (dict_set acc name v) = (m, None)"
    by (auto split: if_splits option.splits)
  show ?case unfolding Cons.IH [OF rest] final_Cons e
    using name by (simp add: dict_get_dict_set split: option.splits)
qed

lemma factors_loop_ok_iff:
  "snd (factors_loop xs acc) = None \<longleftrightarrow>
   (\<forall>e \<in> set xs. is_number (snd e) \<and> str_lower (fst e) \<noteq> None)"
  unfolding factors_loop_error by (auto simp: find_None_iff find_Some_iff split: option.splits)

lemma final_dict_set_other:
  "str_lower k \<noteq> Some n \<Longrightarrow>
   dict_get (rev (lowered (dict_set acc k w))) n = dict_get (rev (lowered acc)) n"
proof (induction acc)
  case Nil
  then show ?case by (simp split: option.splits)
next
  case (Cons e acc)
  obtain k' v' where e: "e = (k', v')" by (cases e)
  show ?case
  proof (cases "k' = k")
    case True
    with Cons.prems e show ?thesis by (simp add: final_Cons del: lowered.simps)
  next
    case False
    with Cons e show ?thesis by (simp add: final_Cons del: lowered.simps)
  qed
qed

lemma final_dict_set_same:
  "str_lower k = Some n \<Longrightarrow>
   dict_get (rev (lowered (dict_set acc k w))) n = Some w \<or>
   (dict_get (rev (lowered (dict_set acc k w))) n = dict_get (rev (lowered acc)) n \<and>
    dict_get (rev (lowered acc)) n \<noteq> None)"
proof (induction acc)
  case Nil
  then show ?case by simp
next
  case (Cons e acc)
  obtain k' v' where e: "e = (k', v')" by (cases e)
  show ?case
  proof (cases "k' = k")
    case True
    with Cons.prems e show ?thesis
      by (auto simp: final_Cons simp del: lowered.simps split: option.splits)
  next
    case False
    with Cons e show ?thesis
      by (auto simp: final_Cons simp del: lowered.simps split: option.splits)
  qed
qed

lemma final_dict_set_kept:
  assumes "dict_get (rev (lowered acc)) n = Some v"
    and "str_lower k = Some n \<longrightarrow> w = v"
  shows "dict_get (rev (lowered (dict_set acc k w))) n = Some v"
proof (cases "str_lower k = Some n")
  case True
  with assms(2) have "w = v" by simp
  with final_dict_set_same [OF True, of acc w] assms(1) show ?thesis by auto
next
  case False
  from final_dict_set_other [OF False, of acc w] assms(1) show ?thesis by simp
qed

lemma final_dict_set_first:
  assumes "str_lower k = Some n"
    and "distinct (map fst acc)"
    and "\<forall>k' \<in> set (map fst acc). str_lower k' = Some n \<longrightarrow> k' = PStr n"
  shows "dict_get (rev (lowered (dict_set acc k v))) n = Some v"
  using assms(2,3)
proof (induction acc)
  case Nil
  with assms(1) show ?case by simp
next
  case (Cons e acc)
  obtain k' v' where e: "e = (k', v')" by (cases e)
  show ?case
  proof (cases "k' = k")
    case True
    with Cons.prems e assms(1) have kn: "k = PStr n" by simp
    have "Some n \<notin> str_lower ` set (map fst acc)"
    proof
      assume "Some n \<in> str_lower ` set (map fst acc)"
      then obtain k'' where k'': "k'' \<in> set (map fst acc)" "str_lower k'' = Some n"
        by (force simp del: set_map)
      with Cons.prems(2) have "k'' = PStr n" by auto
      with k'' Cons.prems(1) e True kn show False by simp
    qed
    then have "dict_get (rev (lowered acc)) n = None"
      unfolding final_None_iff .
    with True e assms(1) show ?thesis
      by (simp add: final_Cons del: lowered.simps)
  next
    case False
    from Cons.prems have "distinct (map fst acc)"
      and "\<forall>k' \<in> set (map fst acc). str_lower k' = Some n \<longrightarrow> k' = PStr n" by simp_all
    from Cons.IH [OF this] False e show ?thesis
      by (simp add: final_Cons del: lowered.simps)
  qed
qed

lemma final_dict_update:
  assumes "\<forall>(k', v') \<in> set d. str_lower k' = Some n \<longrightarrow> v' = v"
    and "distinct (map fst acc)"
    and "dict_get (rev (lowered acc)) n = Some v \<or>
         ((\<forall>k' \<in> set (map fst acc). str_lower k' = Some n \<longrightarrow> k' = PStr n) \<and>
          Some n \<in> str_lower ` set (map fst d))"
  shows "dict_get (rev (lowered (dict_update acc d))) n = Some v"
  using assms
proof (induction d arbitrary: acc)
  case Nil
  then show ?case by simp
next
  case (Cons e d)
  obtain k w where e: "e = (k, w)" by (cases e)
  from Cons.prems(1) e have kw: "str_lower k = Some n \<longrightarrow> w = v"
    and rest: "\<forall>(k', v') \<in> set d. str_lower k' = Some n \<longrightarrow> v' = v" by simp_all
  have dist: "distinct (map fst (dict_set acc k w))"
    using Cons.prems(2) by (rule distinct_dict_set)
  have "dict_get (rev (lowered (dict_set acc k w))) n = Some v \<or>
         ((\<forall>k' \<in> set (map fst (dict_set acc k w)). str_lower k' = Some n \<longrightarrow> k' = PStr n) \<and>
          Some n \<in> str_lower ` set (map fst d))"
  proof (cases "dict_get (rev (lowered acc)) n = Some v")
    case True
    from final_dict_set_kept [OF True kw] show ?thesis by simp
  next
    case False
    with Cons.prems(3) have inv: "\<forall>k' \<in> set (map fst acc). str_lower k' = Some n \<longrightarrow> k' = PStr n"
      and ex: "Some n \<in> str_lower ` set (map fst (e # d))" by simp_all
    show ?thesis
    proof (cases "str_lower k = Some n")
      case True
      with kw have "w = v" by simp
      with final_dict_set_first [OF True Cons.prems(2) inv] show ?thesis by simp
    next
      case False
      with inv ex e show ?thesis by (auto simp: set_keys_dict_set simp del: set_map)
    qed
  qed
  from Cons.IH [OF rest dist this] e show ?case by simp
qed

subsection \<open>Loads that return\<close>

lemma read_config_Returns:
  assumes "read_config rt self environ config s = Returns s'"
  obtains sz cc ef d m where
    "parse_size rt (dict_get_default config (PStr ''event_cache_size'') (PStr ''10K'')) = Some sz"
    "dict_get_default config (PStr ''caches'') (PDict []) = PDict cc"
    "is_number (dict_get_default cc (PStr ''global_factor'') (DEFAULT_CACHE_SIZE_FACTOR s))"
    "environ_factors rt environ [] = Some ef"
    "py_or rt (dict_get_default cc (PStr ''per_cache_factors'') (PDict [])) (PDict []) = PDict d"
    "factors_loop (dict_update ef d) [] = (m, None)"
    "global_factor (objs s' self) =
       Some (dict_get_default cc (PStr ''global_factor'') (DEFAULT_CACHE_SIZE_FACTOR s))"
    "cache_factors (objs s' self) = Some m"
    "CACHES s' = CACHES s"
    "ENSURE_CORRECT_CACHE_SIZING s' = Some self"
    "DEFAULT_CACHE_SIZE_FACTOR s' =
       dict_get_default cc (PStr ''global_factor'') (DEFAULT_CACHE_SIZE_FACTOR s)"
    "calls s' = calls s @
       map (\<lambda>(name, callback).
              (callback, dict_get_default m name
                 (dict_get_default cc (PStr ''global_factor'') (DEFAULT_CACHE_SIZE_FACTOR s))))
         (CACHES s)"
  using assms by (cases rule: read_config_cases [of rt config self environ s]) auto

lemma read_config_returns:
  assumes "parse_size rt (dict_get_default config (PStr ''event_cache_size'') (PStr ''10K'')) = Some sz"
    and "dict_get_default config (PStr ''caches'') (PDict []) = PDict cc"
    and "is_number (dict_get_default cc (PStr ''global_factor'') (DEFAULT_CACHE_SIZE_FACTOR s))"
    and "environ_factors rt environ [] = Some ef"
    and "py_or rt (dict_get_default cc (PStr ''per_cache_factors'') (PDict [])) (PDict []) = PDict d"
    and "\<forall>e \<in> set d. is_number (snd e) \<and> str_lower (fst e) \<noteq> None"
  shows "returns (read_config rt self environ config s)"
proof -
  have "is_number (snd e) \<and> str_lower (fst e) \<noteq> None" if "e \<in> set ef" for e
  proof -
    from that have "fst e \<in> set (map fst ef)" by simp
    from environ_factors_str_keys [OF assms(4) this] environ_factors_numbers [OF assms(4)] that
    show ?thesis by auto
  qed
  with assms(6) set_dict_update [of ef d]
  have "\<forall>e \<in> set (dict_update ef d). is_number (snd e) \<and> str_lower (fst e) \<noteq> None"
    by blast
  then have ok: "snd (factors_loop (dict_update ef d) []) = None"
    by (simp only: factors_loop_ok_iff)
  show ?thesis using assms(1-5) ok
    by (cases rule: read_config_cases [of rt config self environ s]) auto
qed

lemma merged_factor:
  assumes "environ_factors rt environ [] = Some ef"
    and "factors_loop (dict_update ef d) [] = (m, None)"
    and "(k, v) \<in> set d"
    and "str_lower k = Some n"
    and "\<forall>(k', v') \<in> set d. str_lower k' = Some n \<longrightarrow> v' = v"
  shows "dict_get m n = Some v"
proof -
  have dist: "distinct (map fst ef)"
    using environ_factors_distinct [OF assms(1)] by simp
  have low: "\<forall>k' \<in> set (map fst ef). str_lower k' = Some n \<longrightarrow> k' = PStr n"
    using environ_factors_str_keys [OF assms(1)] by (force simp del: set_map)
  have "Some n \<in> str_lower ` set (map fst d)" using assms(3,4) by force
  with low have "dict_get (rev (lowered ef)) n = Some v \<or>
         ((\<forall>k' \<in> set (map fst ef). str_lower k' = Some n \<longrightarrow> k' = PStr n) \<and>
          Some n \<in> str_lower ` set (map fst d))" by blast
  from final_dict_update [OF assms(5) dist this]
  show ?thesis unfolding factors_loop_get [OF assms(2)] by simp
qed

lemma no_override_factor:
  assumes "environ_factors rt environ [] = Some ef"
    and "factors_loop (dict_update ef d) [] = (m, None)"
    and "Some name \<notin> str_lower ` set (map fst d)"
    and "name \<notin> set (environ_names environ)"
  shows "dict_get m name = None"
proof -
  have "Some name \<notin> str_lower ` set (map fst ef)"
  proof
    assume "Some name \<in> str_lower ` set (map fst ef)"
    then obtain k where k: "k \<in> set (map fst ef)" "str_lower k = Some name"
      by (force simp del: set_map)
    from environ_factors_keys [OF assms(1)] k(1)
    obtain c where c: "k = PStr c" "c \<in> set (environ_names environ)" by auto
    with environ_names_lower [OF c(2)] k(2) assms(4) show False by simp
  qed
  with assms(3) have "Some name \<notin> str_lower ` set (map fst (dict_update ef d))"
    unfolding set_keys_dict_update by blast
  then have "dict_get (rev (lowered (dict_update ef d))) name = None"
    unfolding final_None_iff .
  then show ?thesis unfolding factors_loop_get [OF assms(2)] by simp
qed

subsection \<open>Reachable states\<close>

lemma add_resizable_cache_installed:
  assumes "ENSURE_CORRECT_CACHE_SIZING s = Some self"
    and "global_factor (objs s self) = Some g"
    and "cache_factors (objs s self) = Some m"
  shows "add_resizable_cache n cb s =
     Returns (s\<lparr>CACHES := dict_set (CACHES s) (lower n) cb,
                calls := calls s @
                  map (\<lambda>(name, callback). (callback, dict_get_default m name g))
                    (dict_set (CACHES s) (lower n) cb)\<rparr>)"
proof -
  let ?s1 = "s\<lparr>CACHES := dict_set (CACHES s) (lower n) cb\<rparr>"
  have "ensure_loop self (CACHES ?s1) ?s1 =
    Returns (?s1\<lparr>calls := calls ?s1 @
      map (\<lambda>(name, callback). (callback, dict_get_default m name g)) (CACHES ?s1)\<rparr>)"
    by (rule ensure_loop_Returns) (simp_all add: assms)
  with assms(1) show ?thesis
    by (simp add: add_resizable_cache_def Let_def ensure_cache_sizes_def)
qed

lemma installed_ok_initial: "installed_ok (initial_state d)"
  by (simp add: installed_ok_def initial_state_def)

lemma installed_ok_perform:
  assumes "installed_ok s"
  shows "installed_ok (state_of (perform rt a s))"
proof (cases a)
  case (Register n cb)
  show ?thesis
  proof (cases "ENSURE_CORRECT_CACHE_SIZING s")
    case None
    with Register assms show ?thesis
      by (simp add: add_resizable_cache_def Let_def installed_ok_def)
  next
    case (Some self)
    with assms obtain g m where g: "global_factor (objs s self) = Some g"
      and m: "cache_factors (objs s self) = Some m"
      by (auto simp: installed_ok_def)
    from add_resizable_cache_installed [OF Some g m, of n cb] Register Some g m show ?thesis
      by (simp add: installed_ok_def)
  qed
next
  case (Load self environ config)
  show ?thesis unfolding Load perform.simps using assms
    by (cases rule: read_config_cases [of rt config self environ s])
       (auto simp: installed_ok_def split: option.splits)
next
  case (Reset os_environ)
  with assms show ?thesis
    by (auto simp: reset_def installed_ok_def split: option.splits)
qed

lemma installed_ok_run: "installed_ok s \<Longrightarrow> installed_ok (run rt as s)"
  by (induction as arbitrary: s) (simp_all add: installed_ok_perform)

text \<open>In every state that calls of the module reach from its import, a registration
  returns normally: the attributes the installed closure reads have been assigned.\<close>

lemma registration_in_reachable_state:
  assumes "module_init rt os_environ = Some s0"
    and "s = run rt as s0"
    and "ENSURE_CORRECT_CACHE_SIZING s = Some self"
  shows "\<exists>g m. global_factor (objs s self) = Some g \<and>
           cache_factors (objs s self) = Some m \<and>
           add_resizable_cache n cb s =
             Returns (s\<lparr>CACHES := dict_set (CACHES s) (lower n) cb,
                        calls := calls s @
                          map (\<lambda>(name, callback). (callback, dict_get_default m name g))
                            (dict_set (CACHES s) (lower n) cb)\<rparr>) \<and>
           dict_get (dict_set (CACHES s) (lower n) cb) (lower n) = Some cb"
proof -
  from assms(1) obtain d where "s0 = initial_state d"
    by (auto simp: module_init_def split: option.splits)
  then have "installed_ok s" unfolding assms(2)
    by (simp add: installed_ok_run installed_ok_initial)
  with assms(3) obtain g m where g: "global_factor (objs s self) = Some g"
    and m: "cache_factors (objs s self) = Some m"
    by (auto simp: installed_ok_def)
  from add_resizable_cache_installed [OF assms(3) g m, of n cb] g m show ?thesis
    by (simp add: dict_get_dict_set)
qed

lemma perform_keeps_attributes:
  assumes "\<not> loads_on self a"
  shows "global_factor (objs (state_of (perform rt a s)) self) = global_factor (objs s self) \<and>
         cache_factors (objs (state_of (perform rt a s)) self) = cache_factors (objs s self)"
proof (cases a)
  case (Register n cb)
  show ?thesis
  proof (cases "ENSURE_CORRECT_CACHE_SIZING s")
    case None
    with Register show ?thesis by (simp add: add_resizable_cache_def Let_def)
  next
    case (Some i)
    let ?s1 = "s\<lparr>CACHES := dict_set (CACHES s) (lower n) cb\<rparr>"
    have "objs (state_of (ensure_loop i xs t)) = objs t" for xs and t :: "('a, 'b) state"
      by (induction xs arbitrary: t) (auto split: option.splits)
    with Register Some show ?thesis
      by (simp add: add_resizable_cache_def Let_def ensure_cache_sizes_def)
  qed
next
  case (Load i environ config)
  with assms have "i \<noteq> self" by simp
  then show ?thesis unfolding Load perform.simps
    by (cases rule: read_config_cases [of rt config i environ s]) auto
next
  case (Reset os_environ)
  then show ?thesis by (auto simp: reset_def split: option.splits)
qed

lemma run_keeps_attributes:
  "\<forall>a \<in> set as. \<not> loads_on self a \<Longrightarrow>
   global_factor (objs (run rt as s) self) = global_factor (objs s self) \<and>
   cache_factors (objs (run rt as s) self) = cache_factors (objs s self)"
proof (induction as arbitrary: s)
  case Nil
  show ?case by simp
next
  case (Cons a as)
  from Cons.prems have a: "\<not> loads_on self a" and rest: "\<forall>a \<in> set as. \<not> loads_on self a"
    by simp_all
  from Cons.IH [OF rest, of "state_of (perform rt a s)"] perform_keeps_attributes [OF a, of rt s]
  show ?case by simp
qed

section \<open>The claims\<close>

text \<open>
  C1. A load that returns calls the resize callback of every entry of the registry exactly
  once, in the order of the registry, with the factor \<^verbatim>\<open>cache_factors.get(name, global_factor)\<close>
  of the configuration it has just resolved: \<open>global_factor\<close> is the file's
  \<^verbatim>\<open>caches.global_factor\<close>, or the process-wide default when the file has none. A name that
  the file's \<^verbatim>\<open>per_cache_factors\<close> does not hold under any letter case and for which the
  environment has no variable receives the global factor. (\<open>cc\<close> and \<open>d\<close> name the
  \<^verbatim>\<open>caches\<close> section and the mapping that line 94 yields.)
\<close>

theorem load_resizes_every_registered_cache:
  assumes "read_config rt self environ config s = Returns s'"
    and "dict_get_default config (PStr ''caches'') (PDict []) = PDict cc"
    and "py_or rt (dict_get_default cc (PStr ''per_cache_factors'') (PDict [])) (PDict []) = PDict d"
  shows "\<exists>g m. g = dict_get_default cc (PStr ''global_factor'') (DEFAULT_CACHE_SIZE_FACTOR s) \<and>
           global_factor (objs s' self) = Some g \<and>
           cache_factors (objs s' self) = Some m \<and>
           CACHES s' = CACHES s \<and>
           calls s' = calls s @
             map (\<lambda>(name, callback). (callback, dict_get_default m name g)) (CACHES s) \<and>
           (Some name \<notin> str_lower ` set (map fst d) \<and> name \<notin> set (environ_names environ)
              \<longrightarrow> dict_get_default m name g = g)"
proof -
  from assms(1) obtain sz cc' ef d' m where
    cc': "dict_get_default config (PStr ''caches'') (PDict []) = PDict cc'"
    and ef: "environ_factors rt environ [] = Some ef"
    and d': "py_or rt (dict_get_default cc' (PStr ''per_cache_factors'') (PDict [])) (PDict []) = PDict d'"
    and loop: "factors_loop (dict_update ef d') [] = (m, None)"
    and g: "global_factor (objs s' self) =
       Some (dict_get_default cc' (PStr ''global_factor'') (DEFAULT_CACHE_SIZE_FACTOR s))"
    and m: "cache_factors (objs s' self) = Some m"
    and c: "CACHES s' = CACHES s"
    and calls: "calls s' = calls s @
       map (\<lambda>(name, callback).
              (callback, dict_get_default m name
                 (dict_get_default cc' (PStr ''global_factor'') (DEFAULT_CACHE_SIZE_FACTOR s))))
         (CACHES s)"
    by (rule read_config_Returns)
  from cc' assms(2) have cc: "cc' = cc" by simp
  with d' assms(3) have d: "d' = d" by simp
  have "Some name \<notin> str_lower ` set (map fst d) \<and> name \<notin> set (environ_names environ)
          \<longrightarrow> dict_get m name = None"
    using no_override_factor [OF ef loop [unfolded d]] by blast
  then show ?thesis using g m c calls unfolding cc
    by (auto simp: dict_get_default_def)
qed

text \<open>An instance: two caches are registered, the file gives \<^verbatim>\<open>global_factor: 3\<close> and
  \<^verbatim>\<open>per_cache_factors: {Get_Users: 2}\<close>, the environment gives 5 for \<^verbatim>\<open>GET_USERS\<close>. The
  cache \<^verbatim>\<open>other\<close> has no override and receives 3.\<close>

theorem load_resizes_every_registered_cache_witness:
  "read_config example_runtime 0 [(''SYNAPSE_CACHE_FACTOR_GET_USERS'', ''5'')]
     [(PStr ''caches'', PDict [(PStr ''global_factor'', PInt 3),
                          (PStr ''per_cache_factors'', PDict [(PStr ''Get_Users'', PInt 2)])])]
     (run example_runtime [Register ''Other'' 8, Register ''get_USERS'' 7] example_state)
   = Returns (state_of (read_config example_runtime 0 [(''SYNAPSE_CACHE_FACTOR_GET_USERS'', ''5'')]
     [(PStr ''caches'', PDict [(PStr ''global_factor'', PInt 3),
                          (PStr ''per_cache_factors'', PDict [(PStr ''Get_Users'', PInt 2)])])]
     (run example_runtime [Register ''Other'' 8, Register ''get_USERS'' 7] example_state)))
   \<and> Some ''other'' \<notin> str_lower ` set (map fst ([(PStr ''Get_Users'', PInt 2)] :: rat pydict))
   \<and> ''other'' \<notin> set (environ_names [(''SYNAPSE_CACHE_FACTOR_GET_USERS'', ''5'')])
   \<and> calls (state_of (read_config example_runtime 0 [(''SYNAPSE_CACHE_FACTOR_GET_USERS'', ''5'')]
     [(PStr ''caches'', PDict [(PStr ''global_factor'', PInt 3),
                          (PStr ''per_cache_factors'', PDict [(PStr ''Get_Users'', PInt 2)])])]
     (run example_runtime [Register ''Other'' 8, Register ''get_USERS'' 7] example_state)))
     = [(8, PInt 3), (7, PInt 2)]"
proof -
  let ?environ = "[(''SYNAPSE_CACHE_FACTOR_GET_USERS'', ''5'')]"
  let ?d = "[(PStr ''Get_Users'', PInt 2 :: rat pyval)] :: rat pydict"
  let ?cc = "[(PStr ''global_factor'', PInt 3), (PStr ''per_cache_factors'', PDict ?d)] :: rat pydict"
  let ?config = "[(PStr ''caches'', PDict ?cc)] :: rat pydict"
  let ?s = "run example_runtime [Register ''Other'' 8, Register ''get_USERS'' 7] example_state"
  let ?r = "read_config example_runtime 0 ?environ ?config ?s"
  have "returns ?r" by code_simp
  then have r: "?r = Returns (state_of ?r)" by (rule returns_state_of)
  have cc: "dict_get_default ?config (PStr ''caches'') (PDict []) = PDict ?cc" by code_simp
  have d: "py_or example_runtime (dict_get_default ?cc (PStr ''per_cache_factors'') (PDict [])) (PDict [])
             = PDict ?d" by code_simp
  have n1: "Some ''other'' \<notin> str_lower ` set (map fst ?d)" by code_simp
  have n2: "''other'' \<notin> set (environ_names ?environ)" by code_simp
  from load_resizes_every_registered_cache [OF r cc d, of "''other''"] n1 n2
  obtain m where m: "cache_factors (objs (state_of ?r) 0) = Some m"
    and calls: "calls (state_of ?r) = calls ?s @
       map (\<lambda>(name, callback). (callback, dict_get_default m name
          (dict_get_default ?cc (PStr ''global_factor'') (DEFAULT_CACHE_SIZE_FACTOR ?s)))) (CACHES ?s)"
    by blast
  have "cache_factors (objs (state_of ?r) 0) = Some [(''get_users'', PInt 2)]" by code_simp
  with m have m': "m = [(''get_users'', PInt 2)]" by simp
  have s: "calls ?s = []" "CACHES ?s = [(''other'', 8), (''get_users'', 7)]" by code_simp+
  have "calls (state_of ?r) = [(8, PInt 3), (7, PInt 2)]"
    unfolding calls m' s by (simp add: dict_get_default_def)
  with r n1 n2 show ?thesis by blast
qed

text \<open>
  C2, as stated (an entry of the file for a name under any letter case fixes the resolved
  factor of that name), fails: the file may hold two keys that differ in case only, and then
  the entry the loop of lines 102 to 107 meets last wins. Here the file has \<^verbatim>\<open>Foo: 1\<close>
  and \<^verbatim>\<open>foo: 2\<close>; the load returns and the factor of \<^verbatim>\<open>foo\<close> is 2, not the 1 of the
  entry \<^verbatim>\<open>Foo\<close>.
\<close>

theorem file_factor_any_case_counterexample:
  "dict_get ([(PStr ''per_cache_factors'', PDict [(PStr ''Foo'', PInt 1), (PStr ''foo'', PInt 2)])]
              :: rat pydict)
      (PStr ''per_cache_factors'') = Some (PDict [(PStr ''Foo'', PInt 1), (PStr ''foo'', PInt 2)])
   \<and> (PStr ''Foo'', PInt 1) \<in> set ([(PStr ''Foo'', PInt 1), (PStr ''foo'', PInt 2)] :: rat pydict)
   \<and> lower ''Foo'' = ''foo''
   \<and> returns (read_config example_runtime 0 []
        [(PStr ''caches'', PDict [(PStr ''per_cache_factors'',
            PDict [(PStr ''Foo'', PInt 1), (PStr ''foo'', PInt 2)])])] example_state)
   \<and> cache_factors (objs (state_of (read_config example_runtime 0 []
        [(PStr ''caches'', PDict [(PStr ''per_cache_factors'',
            PDict [(PStr ''Foo'', PInt 1), (PStr ''foo'', PInt 2)])])] example_state)) 0)
      = Some [(''foo'', PInt 2)]"
  by code_simp

text \<open>
  C2, amended. If the file's \<^verbatim>\<open>caches.per_cache_factors\<close> has an entry \<open>k\<close> with value
  \<open>v\<close>, and every entry of the file whose key is \<open>k\<close> up to letter case has that value, then
  after a load that returns the factor of the lowercased \<open>k\<close> is \<open>v\<close>, whatever the global
  factor and the environment say.
\<close>

theorem file_factor_overrides_environment:
  assumes "read_config rt self environ config s = Returns s'"
    and "dict_get config (PStr ''caches'') = Some (PDict cc)"
    and "dict_get cc (PStr ''per_cache_factors'') = Some (PDict d)"
    and "(PStr k, v) \<in> set d"
    and "\<forall>(k', v') \<in> set d. str_lower k' = Some (lower k) \<longrightarrow> v' = v"
  shows "\<exists>m. cache_factors (objs s' self) = Some m \<and>
           dict_get m (lower k) = Some v \<and>
           dict_get_default m (lower k) g = v"
proof -
  from assms(1) obtain sz cc' ef d' m where
    cc': "dict_get_default config (PStr ''caches'') (PDict []) = PDict cc'"
    and ef: "environ_factors rt environ [] = Some ef"
    and d': "py_or rt (dict_get_default cc' (PStr ''per_cache_factors'') (PDict [])) (PDict []) = PDict d'"
    and loop: "factors_loop (dict_update ef d') [] = (m, None)"
    and m: "cache_factors (objs s' self) = Some m"
    by (rule read_config_Returns)
  from cc' assms(2) have cc: "cc' = cc" by (simp add: dict_get_default_def)
  from assms(4) have "d \<noteq> []" by auto
  with d' assms(3) have d: "d' = d" unfolding cc by (simp add: dict_get_default_def py_or_def)
  have "str_lower (PStr k) = Some (lower k)" by simp
  from merged_factor [OF ef loop [unfolded d] assms(4) this assms(5)] m show ?thesis
    by (simp add: dict_get_default_def)
qed

text \<open>The example of the claim: \<^verbatim>\<open>{Get_Users: 2}\<close> in the file and
  \<^verbatim>\<open>SYNAPSE_CACHE_FACTOR_GET_USERS=5\<close> in the environment give 2 for \<^verbatim>\<open>get_users\<close>.\<close>

theorem file_factor_overrides_environment_witness:
  "read_config example_runtime 0 [(''SYNAPSE_CACHE_FACTOR_GET_USERS'', ''5'')]
     [(PStr ''caches'', PDict [(PStr ''per_cache_factors'', PDict [(PStr ''Get_Users'', PInt 2)])])]
     example_state
   = Returns (state_of (read_config example_runtime 0 [(''SYNAPSE_CACHE_FACTOR_GET_USERS'', ''5'')]
     [(PStr ''caches'', PDict [(PStr ''per_cache_factors'', PDict [(PStr ''Get_Users'', PInt 2)])])]
     example_state))
   \<and> (\<exists>m. cache_factors (objs (state_of (read_config example_runtime 0
              [(''SYNAPSE_CACHE_FACTOR_GET_USERS'', ''5'')]
              [(PStr ''caches'', PDict [(PStr ''per_cache_factors'', PDict [(PStr ''Get_Users'', PInt 2)])])]
              example_state)) 0) = Some m
          \<and> dict_get m ''get_users'' = Some (PInt 2))"
proof -
  let ?environ = "[(''SYNAPSE_CACHE_FACTOR_GET_USERS'', ''5'')]"
  let ?d = "[(PStr ''Get_Users'', PInt 2 :: rat pyval)] :: rat pydict"
  let ?cc = "[(PStr ''per_cache_factors'', PDict ?d)] :: rat pydict"
  let ?config = "[(PStr ''caches'', PDict ?cc)] :: rat pydict"
  let ?r = "read_config example_runtime 0 ?environ ?config (example_state :: (rat, nat) state)"
  have "returns ?r" by code_simp
  then have r: "?r = Returns (state_of ?r)" by (rule returns_state_of)
  have cc: "dict_get ?config (PStr ''caches'') = Some (PDict ?cc)" by simp
  have d: "dict_get ?cc (PStr ''per_cache_factors'') = Some (PDict ?d)" by simp
  have k: "(PStr ''Get_Users'', PInt 2) \<in> set ?d" by simp
  have u: "\<forall>(k', v') \<in> set ?d. str_lower k' = Some (lower ''Get_Users'') \<longrightarrow> v' = PInt 2"
    by simp
  have l: "lower ''Get_Users'' = ''get_users''" by code_simp
  from file_factor_overrides_environment [OF r cc d k u] r show ?thesis
    unfolding l by blast
qed

text \<open>
  C3. When a load raises one of the two errors about \<^verbatim>\<open>caches.per_cache_factors\<close>, the
  process-wide default factor is the global factor the load had resolved (a number), the
  registry, the installed callback and the log of resize calls are as before.
\<close>

theorem failed_load_keeps_overwritten_default:
  assumes "read_config rt self environ config s = Raises e s'"
    and "e = ConfigError ''caches.per_cache_factors must be a dictionary'' \<or>
         e = ConfigError (not_a_number_message cache)"
  shows "\<exists>cc. dict_get_default config (PStr ''caches'') (PDict []) = PDict cc \<and>
           DEFAULT_CACHE_SIZE_FACTOR s' =
             dict_get_default cc (PStr ''global_factor'') (DEFAULT_CACHE_SIZE_FACTOR s) \<and>
           is_number (DEFAULT_CACHE_SIZE_FACTOR s') \<and>
           CACHES s' = CACHES s \<and>
           ENSURE_CORRECT_CACHE_SIZING s' = ENSURE_CORRECT_CACHE_SIZING s \<and>
           calls s' = calls s"
  using assms by (cases rule: read_config_cases [of rt config self environ s]) auto

text \<open>An instance: the file gives \<^verbatim>\<open>global_factor: 3\<close> and the sequence \<^verbatim>\<open>[1, 2, 3]\<close>
  for \<^verbatim>\<open>per_cache_factors\<close>. The load raises and the default has moved from 0.5 to 3.\<close>

theorem failed_load_keeps_overwritten_default_witness:
  "raised (read_config example_runtime 0 []
      [(PStr ''caches'', PDict [(PStr ''global_factor'', PInt 3), (PStr ''per_cache_factors'', PList [PInt 1, PInt 2, PInt 3])])]
      example_state)
     = Some (ConfigError ''caches.per_cache_factors must be a dictionary'')
   \<and> DEFAULT_CACHE_SIZE_FACTOR (example_state :: (rat, nat) state) = PFloat (1 / 2)
   \<and> DEFAULT_CACHE_SIZE_FACTOR (state_of (read_config example_runtime 0 []
      [(PStr ''caches'', PDict [(PStr ''global_factor'', PInt 3), (PStr ''per_cache_factors'', PList [PInt 1, PInt 2, PInt 3])])]
      example_state)) = PInt 3"
proof -
  let ?cc = "[(PStr ''global_factor'', PInt 3), (PStr ''per_cache_factors'', PList [PInt 1, PInt 2, PInt 3 :: rat pyval])] :: rat pydict"
  let ?config = "[(PStr ''caches'', PDict ?cc)] :: rat pydict"
  let ?r = "read_config example_runtime 0 [] ?config (example_state :: (rat, nat) state)"
  have e: "raised ?r = Some (ConfigError ''caches.per_cache_factors must be a dictionary'')"
    by code_simp
  then have r: "?r = Raises (ConfigError ''caches.per_cache_factors must be a dictionary'') (state_of ?r)"
    by (cases ?r) simp_all
  have cc: "dict_get_default ?config (PStr ''caches'') (PDict []) = PDict ?cc" by code_simp
  from failed_load_keeps_overwritten_default [OF r] cc
  have "DEFAULT_CACHE_SIZE_FACTOR (state_of ?r) =
          dict_get_default ?cc (PStr ''global_factor'') (DEFAULT_CACHE_SIZE_FACTOR (example_state :: (rat, nat) state))"
    by auto
  moreover have "dict_get_default ?cc (PStr ''global_factor'') (DEFAULT_CACHE_SIZE_FACTOR (example_state :: (rat, nat) state)) = PInt 3"
    by code_simp
  moreover have "DEFAULT_CACHE_SIZE_FACTOR (example_state :: (rat, nat) state) = PFloat (1 / 2)"
    by (simp add: example_state_def initial_state_def)
  ultimately show ?thesis using e by simp
qed

text \<open>
  C4, as stated (every \<^verbatim>\<open>caches.per_cache_factors\<close> that is present and is not a mapping
  makes the load fail), fails: line 94 replaces a value that is false in a boolean context
  by the empty dictionary before line 95 tests its type. With the empty sequence the load
  returns.
\<close>

theorem falsy_per_cache_factors_counterexample:
  "dict_get ([(PStr ''per_cache_factors'', PList [])] :: rat pydict) (PStr ''per_cache_factors'')
     = Some (PList [])
   \<and> returns (read_config example_runtime 0 []
        [(PStr ''caches'', PDict [(PStr ''per_cache_factors'', PList [])])] example_state)
   \<and> raised (read_config example_runtime 0 []
        [(PStr ''caches'', PDict [(PStr ''per_cache_factors'', PList [])])] example_state) = None"
  by code_simp

text \<open>
  C4, amended. If \<^verbatim>\<open>caches.per_cache_factors\<close> is present, is true in a boolean context
  (not \<^verbatim>\<open>None\<close>, \<^verbatim>\<open>False\<close>, zero or empty) and is not a mapping, and the steps before the
  test pass (\<^verbatim>\<open>parse_size\<close> returns, the global factor is a number, every factor of the
  environment converts), then the load raises \<^verbatim>\<open>ConfigError\<close> with the message
  \<^verbatim>\<open>caches.per_cache_factors must be a dictionary\<close>, and no callback has been called.
\<close>

theorem non_mapping_per_cache_factors_is_rejected:
  assumes "parse_size rt (dict_get_default config (PStr ''event_cache_size'') (PStr ''10K'')) = Some sz"
    and "dict_get config (PStr ''caches'') = Some (PDict cc)"
    and "is_number (dict_get_default cc (PStr ''global_factor'') (DEFAULT_CACHE_SIZE_FACTOR s))"
    and "environ_factors rt environ [] = Some ef"
    and "dict_get cc (PStr ''per_cache_factors'') = Some v"
    and "truthy rt v"
    and "\<forall>d. v \<noteq> PDict d"
  shows "\<exists>s'. read_config rt self environ config s =
                 Raises (ConfigError ''caches.per_cache_factors must be a dictionary'') s' \<and>
              calls s' = calls s \<and>
              ENSURE_CORRECT_CACHE_SIZING s' = ENSURE_CORRECT_CACHE_SIZING s \<and>
              CACHES s' = CACHES s"
  using assms
  by (cases rule: read_config_cases [of rt config self environ s])
     (auto simp: dict_get_default_def py_or_def)

text \<open>The example of the claim, \<^verbatim>\<open>per_cache_factors: [1, 2, 3]\<close>.\<close>

theorem non_mapping_per_cache_factors_is_rejected_witness:
  "truthy example_runtime (PList [PInt 1, PInt 2, PInt 3])
   \<and> raised (read_config example_runtime 0 []
        [(PStr ''caches'', PDict [(PStr ''per_cache_factors'', PList [PInt 1, PInt 2, PInt 3])])]
        example_state)
      = Some (ConfigError ''caches.per_cache_factors must be a dictionary'')"
proof -
  let ?v = "PList [PInt 1, PInt 2, PInt 3 :: rat pyval]"
  let ?cc = "[(PStr ''per_cache_factors'', ?v)] :: rat pydict"
  let ?config = "[(PStr ''caches'', PDict ?cc)] :: rat pydict"
  let ?s = "example_state :: (rat, nat) state"
  have a1: "parse_size example_runtime (dict_get_default ?config (PStr ''event_cache_size'') (PStr ''10K''))
              = Some (PInt 10240)" by code_simp
  have a2: "dict_get ?config (PStr ''caches'') = Some (PDict ?cc)" by simp
  have a3: "is_number (dict_get_default ?cc (PStr ''global_factor'') (DEFAULT_CACHE_SIZE_FACTOR ?s))"
    by code_simp
  have a4: "environ_factors example_runtime [] [] = Some []" by simp
  have a5: "dict_get ?cc (PStr ''per_cache_factors'') = Some ?v" by simp
  have a6: "truthy example_runtime ?v" by simp
  have a7: "\<forall>d. ?v \<noteq> PDict d" by simp
  from non_mapping_per_cache_factors_is_rejected [OF a1 a2 a3 a4 a5 a6 a7, of 0] a6
  show ?thesis by auto
qed

text \<open>
  C7, as stated (every configuration whose \<^verbatim>\<open>caches.global_factor\<close> is not a number makes
  the load fail with the error about \<^verbatim>\<open>caches.global_factor\<close>), fails: line 70 parses
  \<^verbatim>\<open>event_cache_size\<close> first, and when \<^verbatim>\<open>parse_size\<close> raises (as \<^verbatim>\<open>int("abc")\<close> does for
  the value \<^verbatim>\<open>"abc"\<close>) the load ends with that exception, before line 80 is reached.
\<close>

theorem unparsed_event_cache_size_counterexample:
  "dict_get ([(PStr ''global_factor'', PStr ''fast'')] :: rat pydict) (PStr ''global_factor'')
     = Some (PStr ''fast'')
   \<and> \<not> is_number (PStr ''fast'' :: rat pyval)
   \<and> raised (read_config example_runtime 0 []
        [(PStr ''event_cache_size'', PStr ''abc''),
         (PStr ''caches'', PDict [(PStr ''global_factor'', PStr ''fast'')])]
        example_state)
      = Some SizeParseError"
  by code_simp

text \<open>
  C7, amended. If \<^verbatim>\<open>caches.global_factor\<close> is present and is not a number, and
  \<^verbatim>\<open>parse_size\<close> returns for \<^verbatim>\<open>event_cache_size\<close>, then the load raises \<^verbatim>\<open>ConfigError\<close>
  with the message \<^verbatim>\<open>caches.global_factor must be a number.\<close>; no callback has been
  called, and the installed callback, the registry and the process-wide default are as
  before.
\<close>

theorem non_numeric_global_factor_is_rejected:
  assumes "parse_size rt (dict_get_default config (PStr ''event_cache_size'') (PStr ''10K'')) = Some sz"
    and "dict_get config (PStr ''caches'') = Some (PDict cc)"
    and "dict_get cc (PStr ''global_factor'') = Some v"
    and "\<not> is_number v"
  shows "\<exists>s'. read_config rt self environ config s =
                 Raises (ConfigError ''caches.global_factor must be a number.'') s' \<and>
              calls s' = calls s \<and>
              ENSURE_CORRECT_CACHE_SIZING s' = ENSURE_CORRECT_CACHE_SIZING s \<and>
              CACHES s' = CACHES s \<and>
              DEFAULT_CACHE_SIZE_FACTOR s' = DEFAULT_CACHE_SIZE_FACTOR s"
  using assms
  by (cases rule: read_config_cases [of rt config self environ s])
     (auto simp: dict_get_default_def)

text \<open>The example of the claim, \<^verbatim>\<open>global_factor: "fast"\<close>, with one cache registered and
  no \<^verbatim>\<open>event_cache_size\<close> in the file, so that the default \<^verbatim>\<open>"10K"\<close> is parsed.\<close>

theorem non_numeric_global_factor_is_rejected_witness:
  "\<not> is_number (PStr ''fast'' :: rat pyval)
   \<and> raised (read_config example_runtime 0 []
        [(PStr ''caches'', PDict [(PStr ''global_factor'', PStr ''fast'')])]
        (run example_runtime [Register ''a'' 1] example_state))
      = Some (ConfigError ''caches.global_factor must be a number.'')
   \<and> calls (state_of (read_config example_runtime 0 []
        [(PStr ''caches'', PDict [(PStr ''global_factor'', PStr ''fast'')])]
        (run example_runtime [Register ''a'' 1] example_state))) = []"
proof -
  let ?cc = "[(PStr ''global_factor'', PStr ''fast'' :: rat pyval)] :: rat pydict"
  let ?config = "[(PStr ''caches'', PDict ?cc)] :: rat pydict"
  let ?s = "run example_runtime [Register ''a'' 1] example_state :: (rat, nat) state"
  have a1: "parse_size example_runtime
              (dict_get_default ?config (PStr ''event_cache_size'') (PStr ''10K''))
              = Some (PInt 10240)" by code_simp
  have a2: "dict_get ?config (PStr ''caches'') = Some (PDict ?cc)" by simp
  have a3: "dict_get ?cc (PStr ''global_factor'') = Some (PStr ''fast'')" by simp
  have a4: "\<not> is_number (PStr ''fast'' :: rat pyval)" by simp
  have c: "calls ?s = []" by code_simp
  from non_numeric_global_factor_is_rejected [OF a1 a2 a3 a4, of 0 "[]" ?s] a4 c
  show ?thesis by auto
qed

text \<open>
  C8, as stated (a mapping with an entry whose value is not a number makes the load fail
  with the error that names that entry), fails: the load raises the first error it meets.
  With two entries that are not numbers the error names the first and not the second; when
  \<^verbatim>\<open>caches.global_factor\<close> is not a number either, the error is about the global factor;
  and when an entry before it has a key that is not a string (\<^verbatim>\<open>1: 2\<close>), line 107 raises
  \<^verbatim>\<open>AttributeError\<close> on \<^verbatim>\<open>cache.lower()\<close>.
\<close>

theorem first_error_wins_counterexample:
  "(PStr ''b'', PStr ''y'') \<in> set ([(PStr ''a'', PStr ''x''), (PStr ''b'', PStr ''y'')] :: rat pydict)
   \<and> \<not> is_number (PStr ''y'' :: rat pyval)
   \<and> raised (read_config example_runtime 0 []
        [(PStr ''caches'', PDict [(PStr ''per_cache_factors'',
            PDict [(PStr ''a'', PStr ''x''), (PStr ''b'', PStr ''y'')])])] example_state)
      = Some (ConfigError ''caches.per_cache_factors.a must be a number'')
   \<and> not_a_number_message ''b'' \<noteq> ''caches.per_cache_factors.a must be a number''
   \<and> raised (read_config example_runtime 0 []
        [(PStr ''caches'', PDict [(PStr ''global_factor'', PStr ''fast''),
                                  (PStr ''per_cache_factors'', PDict [(PStr ''b'', PStr ''y'')])])]
        example_state)
      = Some (ConfigError ''caches.global_factor must be a number.'')
   \<and> raised (read_config example_runtime 0 []
        [(PStr ''caches'', PDict [(PStr ''per_cache_factors'',
            PDict [(PInt 1, PInt 2), (PStr ''a'', PStr ''x'')])])] example_state)
      = Some AttributeError"
  by code_simp

text \<open>
  C8, amended. If \<^verbatim>\<open>caches.per_cache_factors\<close> is a mapping whose keys are strings, with
  an entry whose value is not a number, and the steps before the loop pass (\<^verbatim>\<open>parse_size\<close>
  returns, the global factor is a number, every factor of the environment converts), then
  the load raises \<^verbatim>\<open>ConfigError\<close> with the message
  \<^verbatim>\<open>caches.per_cache_factors.<name> must be a number\<close>, where \<^verbatim>\<open><name>\<close> is the lowercased
  key of the first entry, in the order of the merged mapping, whose value is not a number;
  that entry is one of the file's. No callback has been called and the installed callback
  is as before. (The keys of the file's mapping are distinct, as those of a \<^verbatim>\<open>dict\<close> are.)
\<close>

theorem non_numeric_per_cache_factor_is_rejected:
  assumes "parse_size rt (dict_get_default config (PStr ''event_cache_size'') (PStr ''10K'')) = Some sz"
    and "dict_get config (PStr ''caches'') = Some (PDict cc)"
    and "is_number (dict_get_default cc (PStr ''global_factor'') (DEFAULT_CACHE_SIZE_FACTOR s))"
    and "environ_factors rt environ [] = Some ef"
    and "dict_get cc (PStr ''per_cache_factors'') = Some (PDict d)"
    and "distinct (map fst d)"
    and "\<forall>e \<in> set d. \<exists>c. fst e = PStr c"
    and "(k0, v0) \<in> set d"
    and "\<not> is_number v0"
  shows "\<exists>c v s'. find (\<lambda>e. \<not> is_number (snd e)) (dict_update ef d) = Some (PStr c, v) \<and>
           (PStr c, v) \<in> set d \<and>
           read_config rt self environ config s =
             Raises (ConfigError (not_a_number_message (lower c))) s' \<and>
           calls s' = calls s \<and>
           ENSURE_CORRECT_CACHE_SIZING s' = ENSURE_CORRECT_CACHE_SIZING s \<and>
           CACHES s' = CACHES s"
proof -
  from assms(8) have "d \<noteq> []" by auto
  with assms(5)
  have d: "py_or rt (dict_get_default cc (PStr ''per_cache_factors'') (PDict [])) (PDict [])
             = PDict d"
    by (simp add: dict_get_default_def py_or_def)
  from assms(2) have cc: "dict_get_default config (PStr ''caches'') (PDict []) = PDict cc"
    by (simp add: dict_get_default_def)
  have str: "str_lower (fst e) \<noteq> None" if "e \<in> set (dict_update ef d)" for e
  proof -
    from that set_dict_update [of ef d] have "e \<in> set ef \<or> e \<in> set d" by auto
    then show ?thesis
    proof
      assume "e \<in> set ef"
      then have "fst e \<in> set (map fst ef)" by simp
      from environ_factors_str_keys [OF assms(4) this] show ?thesis by auto
    next
      assume "e \<in> set d"
      with assms(7) show ?thesis by auto
    qed
  qed
  have same: "find (\<lambda>e. \<not> is_number (snd e) \<or> str_lower (fst e) = None) (dict_update ef d)
                = find (\<lambda>e. \<not> is_number (snd e)) (dict_update ef d)"
  proof (rule find_cong [OF refl])
    fix e assume "e \<in> set (dict_update ef d)"
    from str [OF this]
    show "(\<not> is_number (snd e) \<or> str_lower (fst e) = None) = (\<not> is_number (snd e))" by auto
  qed
  from in_dict_update [OF assms(6,8)] assms(9)
  have "\<exists>e \<in> set (dict_update ef d). \<not> is_number (snd e)" by force
  then obtain e where e: "find (\<lambda>e. \<not> is_number (snd e)) (dict_update ef d) = Some e"
    by (cases "find (\<lambda>e. \<not> is_number (snd e)) (dict_update ef d)")
       (auto simp: find_None_iff)
  then have "e \<in> set (dict_update ef d)" and bad: "\<not> is_number (snd e)"
    by (auto simp: find_Some_iff)
  with set_dict_update [of ef d] environ_factors_numbers [OF assms(4)]
  have mem: "e \<in> set d" by auto
  with assms(7) obtain c v where kv: "e = (PStr c, v)" by (cases e) auto
  have err: "snd (factors_loop (dict_update ef d) []) =
               Some (ConfigError (not_a_number_message (lower c)))"
    unfolding factors_loop_error same e kv by simp
  have "\<exists>s'. read_config rt self environ config s =
             Raises (ConfigError (not_a_number_message (lower c))) s' \<and>
           calls s' = calls s \<and>
           ENSURE_CORRECT_CACHE_SIZING s' = ENSURE_CORRECT_CACHE_SIZING s \<and>
           CACHES s' = CACHES s"
    using assms(1,3,4) cc d err
    by (cases rule: read_config_cases [of rt config self environ s]) auto
  with e mem kv show ?thesis by blast
qed

text \<open>An instance: the entry \<^verbatim>\<open>Get_Users: "big"\<close> is the only one that is not a number, and
  the message names \<^verbatim>\<open>get_users\<close>.\<close>

theorem non_numeric_per_cache_factor_is_rejected_witness:
  "(PStr ''Get_Users'', PStr ''big'')
     \<in> set ([(PStr ''a'', PInt 1), (PStr ''Get_Users'', PStr ''big'')] :: rat pydict)
   \<and> \<not> is_number (PStr ''big'' :: rat pyval)
   \<and> raised (read_config example_runtime 0 [(''SYNAPSE_CACHE_FACTOR_A'', ''5'')]
        [(PStr ''caches'', PDict [(PStr ''per_cache_factors'',
            PDict [(PStr ''a'', PInt 1), (PStr ''Get_Users'', PStr ''big'')])])] example_state)
      = Some (ConfigError ''caches.per_cache_factors.get_users must be a number'')"
proof -
  let ?d = "[(PStr ''a'', PInt 1), (PStr ''Get_Users'', PStr ''big'' :: rat pyval)] :: rat pydict"
  let ?cc = "[(PStr ''per_cache_factors'', PDict ?d)] :: rat pydict"
  let ?config = "[(PStr ''caches'', PDict ?cc)] :: rat pydict"
  let ?environ = "[(''SYNAPSE_CACHE_FACTOR_A'', ''5'')]"
  let ?s = "example_state :: (rat, nat) state"
  have a1: "parse_size example_runtime
              (dict_get_default ?config (PStr ''event_cache_size'') (PStr ''10K''))
              = Some (PInt 10240)" by code_simp
  have a2: "dict_get ?config (PStr ''caches'') = Some (PDict ?cc)" by simp
  have a3: "is_number (dict_get_default ?cc (PStr ''global_factor'') (DEFAULT_CACHE_SIZE_FACTOR ?s))"
    by code_simp
  have a4: "environ_factors example_runtime ?environ [] = Some [(PStr ''a'', PFloat 5)]"
    by code_simp
  have a5: "dict_get ?cc (PStr ''per_cache_factors'') = Some (PDict ?d)" by simp
  have a6: "distinct (map fst ?d)" by simp
  have a7: "\<forall>e \<in> set ?d. \<exists>c. fst e = PStr c" by simp
  have a8: "(PStr ''Get_Users'', PStr ''big'') \<in> set ?d" by simp
  have a9: "\<not> is_number (PStr ''big'' :: rat pyval)" by simp
  have f: "find (\<lambda>e. \<not> is_number (snd e)) (dict_update [(PStr ''a'', PFloat 5)] ?d)
             = Some (PStr ''Get_Users'', PStr ''big'')" by code_simp
  have l: "not_a_number_message (lower ''Get_Users'')
             = ''caches.per_cache_factors.get_users must be a number''" by code_simp
  from non_numeric_per_cache_factor_is_rejected [OF a1 a2 a3 a4 a5 a6 a7 a8 a9, of 0]
  obtain c v s' where
    "find (\<lambda>e. \<not> is_number (snd e)) (dict_update [(PStr ''a'', PFloat 5)] ?d) = Some (PStr c, v)"
    and r: "read_config example_runtime 0 ?environ ?config ?s =
             Raises (ConfigError (not_a_number_message (lower c))) s'"
    by blast
  with f have "c = ''Get_Users''" by simp
  with r l have "raised (read_config example_runtime 0 ?environ ?config ?s)
      = Some (ConfigError ''caches.per_cache_factors.get_users must be a number'')" by simp
  with a8 a9 show ?thesis by blast
qed

text \<open>
  C5, as stated (a registration made while a callback is installed resizes every cache with
  the factors of the configuration the last successful load resolved), fails: the installed
  closure reads \<^verbatim>\<open>self.cache_factors\<close> and \<^verbatim>\<open>self.global_factor\<close> when it is called, and
  \<^verbatim>\<open>read_config\<close> assigns \<^verbatim>\<open>self.global_factor\<close> before it validates it. Here a first load
  on instance 0 returns and resolves the global factor 0.5; a second load on the same
  instance raises on \<^verbatim>\<open>global_factor: "fast"\<close>; the callback stays installed, and the cache
  registered next is resized with the string \<^verbatim>\<open>"fast"\<close>.
\<close>

theorem registration_after_failed_reload_counterexample:
  "returns (perform example_runtime (Load 0 [] []) example_state)
   \<and> global_factor (objs (run example_runtime [Load 0 [] []] example_state) 0)
       = Some (PFloat (1 / 2))
   \<and> cache_factors (objs (run example_runtime [Load 0 [] []] example_state) 0) = Some []
   \<and> raised (perform example_runtime
        (Load 0 [] [(PStr ''caches'', PDict [(PStr ''global_factor'', PStr ''fast'')])])
        (run example_runtime [Load 0 [] []] example_state))
       = Some (ConfigError ''caches.global_factor must be a number.'')
   \<and> ENSURE_CORRECT_CACHE_SIZING
        (run example_runtime
          [Load 0 [] [], Load 0 [] [(PStr ''caches'', PDict [(PStr ''global_factor'', PStr ''fast'')])]]
          example_state) = Some 0
   \<and> calls (state_of (add_resizable_cache ''x'' 1
        (run example_runtime
          [Load 0 [] [], Load 0 [] [(PStr ''caches'', PDict [(PStr ''global_factor'', PStr ''fast'')])]]
          example_state))) = [(1, PStr ''fast'')]"
  by code_simp

text \<open>
  C5, amended. After a load on an instance has returned, and as long as its callback is
  installed and no other load has been made on that instance, a registration returns
  normally, the registry holds the new callback under the lowercased name, and every entry
  of the registry, the new one included, receives exactly one resize call, with the
  factor \<^verbatim>\<open>cache_factors.get(name, global_factor)\<close> of the configuration that load
  resolved. No load is needed.
\<close>

theorem registration_resizes_every_cache:
  assumes "read_config rt self environ config s0 = Returns s1"
    and "\<forall>a \<in> set as. \<not> loads_on self a"
    and "s = run rt as s1"
    and "ENSURE_CORRECT_CACHE_SIZING s = Some self"
  shows "\<exists>g m. global_factor (objs s1 self) = Some g \<and>
           cache_factors (objs s1 self) = Some m \<and>
           add_resizable_cache n cb s =
             Returns (s\<lparr>CACHES := dict_set (CACHES s) (lower n) cb,
                        calls := calls s @
                          map (\<lambda>(name, callback). (callback, dict_get_default m name g))
                            (dict_set (CACHES s) (lower n) cb)\<rparr>) \<and>
           dict_get (dict_set (CACHES s) (lower n) cb) (lower n) = Some cb"
proof -
  from assms(1) obtain g m where g1: "global_factor (objs s1 self) = Some g"
    and m1: "cache_factors (objs s1 self) = Some m"
    by (rule read_config_Returns)
  from run_keeps_attributes [OF assms(2), of rt s1] g1 m1
  have g: "global_factor (objs s self) = Some g" and m: "cache_factors (objs s self) = Some m"
    unfolding assms(3) by simp_all
  from add_resizable_cache_installed [OF assms(4) g m, of n cb] g1 m1 show ?thesis
    by (simp add: dict_get_dict_set)
qed

text \<open>An instance: a load on instance 0 returns, a load on instance 1 raises, and the cache
  registered next is resized with the 2 that the first load resolved for it; the cache
  registered before the load is resized again with the global factor 3.\<close>

theorem registration_resizes_every_cache_witness:
  "returns (read_config example_runtime 0 []
      [(PStr ''caches'', PDict [(PStr ''global_factor'', PInt 3),
                           (PStr ''per_cache_factors'', PDict [(PStr ''Get_Users'', PInt 2)])])]
      (run example_runtime [Register ''Other'' 8] example_state))
   \<and> ENSURE_CORRECT_CACHE_SIZING
        (run example_runtime
           [Load 1 [] [(PStr ''caches'', PDict [(PStr ''global_factor'', PStr ''fast'')])]]
           (state_of (read_config example_runtime 0 []
              [(PStr ''caches'', PDict [(PStr ''global_factor'', PInt 3),
                                   (PStr ''per_cache_factors'', PDict [(PStr ''Get_Users'', PInt 2)])])]
              (run example_runtime [Register ''Other'' 8] example_state)))) = Some 0
   \<and> calls (state_of (add_resizable_cache ''get_USERS'' 7
        (run example_runtime
           [Load 1 [] [(PStr ''caches'', PDict [(PStr ''global_factor'', PStr ''fast'')])]]
           (state_of (read_config example_runtime 0 []
              [(PStr ''caches'', PDict [(PStr ''global_factor'', PInt 3),
                                   (PStr ''per_cache_factors'', PDict [(PStr ''Get_Users'', PInt 2)])])]
              (run example_runtime [Register ''Other'' 8] example_state))))))
      = [(8, PInt 3), (8, PInt 3), (7, PInt 2)]"
proof -
  let ?config = "[(PStr ''caches'', PDict [(PStr ''global_factor'', PInt 3),
                           (PStr ''per_cache_factors'', PDict [(PStr ''Get_Users'', PInt 2 :: rat pyval)])])] :: rat pydict"
  let ?s0 = "run example_runtime [Register ''Other'' 8] example_state :: (rat, nat) state"
  let ?r = "read_config example_runtime 0 [] ?config ?s0"
  let ?as = "[Load 1 [] [(PStr ''caches'', PDict [(PStr ''global_factor'', PStr ''fast'' :: rat pyval)])]]
               :: (rat, nat) action list"
  let ?s = "run example_runtime ?as (state_of ?r)"
  have ret: "returns ?r" by code_simp
  then have r: "?r = Returns (state_of ?r)" by (rule returns_state_of)
  have a2: "\<forall>a \<in> set ?as. \<not> loads_on 0 a" by simp
  have e: "ENSURE_CORRECT_CACHE_SIZING ?s = Some 0" by code_simp
  from registration_resizes_every_cache [OF r a2 refl e, of "''get_USERS''" 7]
  obtain g m where g: "global_factor (objs (state_of ?r) 0) = Some g"
    and m: "cache_factors (objs (state_of ?r) 0) = Some m"
    and reg: "add_resizable_cache ''get_USERS'' 7 ?s =
             Returns (?s\<lparr>CACHES := dict_set (CACHES ?s) (lower ''get_USERS'') 7,
                        calls := calls ?s @
                          map (\<lambda>(name, callback). (callback, dict_get_default m name g))
                            (dict_set (CACHES ?s) (lower ''get_USERS'') 7)\<rparr>)"
    by blast
  have "global_factor (objs (state_of ?r) 0) = Some (PInt 3)" by code_simp
  with g have g': "g = PInt 3" by simp
  have "cache_factors (objs (state_of ?r) 0) = Some [(''get_users'', PInt 2)]" by code_simp
  with m have m': "m = [(''get_users'', PInt 2)]" by simp
  have c: "calls ?s = [(8, PInt 3)]" by code_simp
  have k: "dict_set (CACHES ?s) (lower ''get_USERS'') 7 = [(''other'', 8), (''get_users'', 7)]"
    by code_simp
  have "calls (state_of (add_resizable_cache ''get_USERS'' 7 ?s))
          = [(8, PInt 3), (8, PInt 3), (7, PInt 2)]"
    unfolding reg g' m' c k by (simp add: dict_get_default_def)
  with ret e show ?thesis by blast
qed

text \<open>
  C6. While no callback is installed, which is the case until a load returns, a registration
  returns normally without a resize call, and no call of a sequence in which no load
  returns (registrations, loads that raise, resets) makes one.
\<close>

theorem no_resize_before_first_load:
  assumes "ENSURE_CORRECT_CACHE_SIZING s = None"
    and "no_load_completes rt as (s\<lparr>CACHES := dict_set (CACHES s) (lower n) cb\<rparr>)"
  shows "add_resizable_cache n cb s = Returns (s\<lparr>CACHES := dict_set (CACHES s) (lower n) cb\<rparr>) \<and>
         calls (run rt as (s\<lparr>CACHES := dict_set (CACHES s) (lower n) cb\<rparr>)) = calls s \<and>
         ENSURE_CORRECT_CACHE_SIZING (run rt as (s\<lparr>CACHES := dict_set (CACHES s) (lower n) cb\<rparr>))
           = None"
proof -
  let ?s1 = "s\<lparr>CACHES := dict_set (CACHES s) (lower n) cb\<rparr>"
  have "ENSURE_CORRECT_CACHE_SIZING ?s1 = None" using assms(1) by simp
  from run_without_load [OF this assms(2)]
  have "calls (run rt as ?s1) = calls s" "ENSURE_CORRECT_CACHE_SIZING (run rt as ?s1) = None"
    by simp_all
  then show ?thesis using assms(1) by (simp add: add_resizable_cache_def Let_def)
qed

text \<open>An instance: after the registration come a load that raises, another registration and
  a reset; the log of resize calls stays empty.\<close>

theorem no_resize_before_first_load_witness:
  "ENSURE_CORRECT_CACHE_SIZING (example_state :: (rat, nat) state) = None
   \<and> no_load_completes example_runtime
        [Load 0 [] [(PStr ''caches'', PDict [(PStr ''global_factor'', PStr ''fast'')])],
         Register ''b'' 2, Reset []]
        (example_state\<lparr>CACHES := dict_set (CACHES example_state) (lower ''A'') 1\<rparr>)
   \<and> calls (run example_runtime
        [Load 0 [] [(PStr ''caches'', PDict [(PStr ''global_factor'', PStr ''fast'')])],
         Register ''b'' 2, Reset []]
        (example_state\<lparr>CACHES := dict_set (CACHES example_state) (lower ''A'') 1\<rparr>)) = []"
proof -
  let ?as = "[Load 0 [] [(PStr ''caches'', PDict [(PStr ''global_factor'', PStr ''fast'')])],
         Register ''b'' 2, Reset []]"
  let ?s = "example_state :: (rat, nat) state"
  have a1: "ENSURE_CORRECT_CACHE_SIZING ?s = None"
    by (simp add: example_state_def initial_state_def)
  have a2: "no_load_completes example_runtime ?as
              (?s\<lparr>CACHES := dict_set (CACHES ?s) (lower ''A'') 1\<rparr>)" by code_simp
  have c: "calls ?s = []" by (simp add: example_state_def initial_state_def)
  from no_resize_before_first_load [OF a1 a2] a1 a2 c show ?thesis by simp
qed

text \<open>
  C9, as stated (after \<^verbatim>\<open>_reset\<close> is called the registry is empty and no callback is
  installed), fails when the environment variable does not convert: line 65 is the first
  statement of \<^verbatim>\<open>_reset\<close>, \<^verbatim>\<open>float("abc")\<close> raises \<^verbatim>\<open>ValueError\<close> there, and lines 66 and
  67 are not reached. The registry keeps its entry and the callback stays installed.
\<close>

theorem reset_raises_counterexample:
  "raised (reset example_runtime [(''SYNAPSE_CACHE_FACTOR'', ''abc'')]
      (run example_runtime [Register ''a'' 1, Load 0 [] []] example_state)) = Some ValueError
   \<and> CACHES (state_of (reset example_runtime [(''SYNAPSE_CACHE_FACTOR'', ''abc'')]
      (run example_runtime [Register ''a'' 1, Load 0 [] []] example_state))) = [(''a'', 1)]
   \<and> ENSURE_CORRECT_CACHE_SIZING
       (state_of (reset example_runtime [(''SYNAPSE_CACHE_FACTOR'', ''abc'')]
         (run example_runtime [Register ''a'' 1, Load 0 [] []] example_state))) = Some 0"
  by code_simp

text \<open>
  C9, amended. When the environment variable \<^verbatim>\<open>SYNAPSE_CACHE_FACTOR\<close> is not set or converts
  to a float, \<^verbatim>\<open>_reset\<close> returns with an empty registry, no installed callback and, as
  the process-wide default, 0.5 when the variable is not set and its float otherwise. After
  it a registration makes no resize call, nor does any sequence of calls in which no load
  returns.
\<close>

theorem reset_clears_everything:
  assumes "(dict_get os_environ CACHE_PREFIX = None \<and> d = PFloat (float_half rt)) \<or>
           (\<exists>val x. dict_get os_environ CACHE_PREFIX = Some val \<and>
                     float_of_str rt val = Some x \<and> d = PFloat x)"
    and "s' = s\<lparr>DEFAULT_CACHE_SIZE_FACTOR := d, ENSURE_CORRECT_CACHE_SIZING := None,
                 CACHES := []\<rparr>"
    and "no_load_completes rt as s'"
  shows "reset rt os_environ s = Returns s' \<and>
         CACHES s' = [] \<and> ENSURE_CORRECT_CACHE_SIZING s' = None \<and>
         DEFAULT_CACHE_SIZE_FACTOR s' = d \<and>
         add_resizable_cache n cb s' = Returns (s'\<lparr>CACHES := [(lower n, cb)]\<rparr>) \<and>
         calls (run rt as s') = calls s"
proof -
  have e: "ENSURE_CORRECT_CACHE_SIZING s' = None" unfolding assms(2) by simp
  from run_without_load [OF e assms(3)] have "calls (run rt as s') = calls s'" by simp
  moreover have "calls s' = calls s" unfolding assms(2) by simp
  moreover have "default_from_environ rt os_environ = Some d"
    using assms(1) by (auto simp: default_from_environ_def)
  ultimately show ?thesis using assms(2)
    by (simp add: reset_def add_resizable_cache_def Let_def)
qed

text \<open>Two instances. A cache is registered and resized by a load; \<^verbatim>\<open>_reset\<close> with the
  variable not set empties the registry and the default is 0.5 again; the registration
  that follows adds no call to the log. With \<^verbatim>\<open>SYNAPSE_CACHE_FACTOR=2\<close> the default
  is 2.\<close>

theorem reset_clears_everything_witness:
  "dict_get ([] :: (string \<times> string) list) CACHE_PREFIX = None
   \<and> returns (reset example_runtime []
        (run example_runtime [Register ''a'' 1, Load 0 [] [(PStr ''caches'',
            PDict [(PStr ''global_factor'', PInt 3)])]] example_state))
   \<and> DEFAULT_CACHE_SIZE_FACTOR
        (run example_runtime [Register ''a'' 1, Load 0 [] [(PStr ''caches'',
            PDict [(PStr ''global_factor'', PInt 3)])]] example_state) = PInt 3
   \<and> DEFAULT_CACHE_SIZE_FACTOR (state_of (reset example_runtime []
        (run example_runtime [Register ''a'' 1, Load 0 [] [(PStr ''caches'',
            PDict [(PStr ''global_factor'', PInt 3)])]] example_state)))
      = PFloat (float_half example_runtime)
   \<and> CACHES (state_of (reset example_runtime []
        (run example_runtime [Register ''a'' 1, Load 0 [] [(PStr ''caches'',
            PDict [(PStr ''global_factor'', PInt 3)])]] example_state))) = []
   \<and> calls (run example_runtime [Register ''b'' 2]
        (state_of (reset example_runtime []
          (run example_runtime [Register ''a'' 1, Load 0 [] [(PStr ''caches'',
            PDict [(PStr ''global_factor'', PInt 3)])]] example_state))))
      = [(1, PInt 3)]
   \<and> DEFAULT_CACHE_SIZE_FACTOR (state_of (reset example_runtime
        [(''SYNAPSE_CACHE_FACTOR'', ''2'')] example_state)) = PFloat 2"
proof -
  let ?s = "run example_runtime [Register ''a'' 1, Load 0 [] [(PStr ''caches'',
            PDict [(PStr ''global_factor'', PInt 3)])]] example_state :: (rat, nat) state"
  let ?d = "PFloat (float_half example_runtime) :: rat pyval"
  let ?s' = "?s\<lparr>DEFAULT_CACHE_SIZE_FACTOR := ?d, ENSURE_CORRECT_CACHE_SIZING := None,
                 CACHES := []\<rparr>"
  have unset: "dict_get ([] :: (string \<times> string) list) CACHE_PREFIX = None" by simp
  then have a1: "(dict_get ([] :: (string \<times> string) list) CACHE_PREFIX = None \<and>
             ?d = PFloat (float_half example_runtime)) \<or>
           (\<exists>val x. dict_get ([] :: (string \<times> string) list) CACHE_PREFIX = Some val \<and>
                     float_of_str example_runtime val = Some x \<and> ?d = PFloat x)" by simp
  have a3: "no_load_completes example_runtime [Register ''b'' 2] ?s'" by simp
  have c: "calls ?s = [(1, PInt 3)]" by code_simp
  have before: "DEFAULT_CACHE_SIZE_FACTOR ?s = PInt 3" by code_simp
  from reset_clears_everything [OF a1 refl a3]
  have r: "reset example_runtime [] ?s = Returns ?s'"
    and k: "calls (run example_runtime [Register ''b'' 2] ?s') = calls ?s" by simp_all
  from r have first: "returns (reset example_runtime [] ?s)"
    "CACHES (state_of (reset example_runtime [] ?s)) = []"
    "DEFAULT_CACHE_SIZE_FACTOR (state_of (reset example_runtime [] ?s)) = ?d"
    "state_of (reset example_runtime [] ?s) = ?s'" by simp_all
  let ?os = "[(''SYNAPSE_CACHE_FACTOR'', ''2'')]"
  let ?t = "example_state :: (rat, nat) state"
  have "dict_get ?os CACHE_PREFIX = Some ''2''" by code_simp
  moreover have "float_of_str example_runtime ''2'' = Some 2" by code_simp
  ultimately have b1: "(dict_get ?os CACHE_PREFIX = None \<and>
             (PFloat 2 :: rat pyval) = PFloat (float_half example_runtime)) \<or>
           (\<exists>val x. dict_get ?os CACHE_PREFIX = Some val \<and>
                     float_of_str example_runtime val = Some x \<and> (PFloat 2 :: rat pyval) = PFloat x)"
    by simp
  have b3: "no_load_completes example_runtime []
              (?t\<lparr>DEFAULT_CACHE_SIZE_FACTOR := PFloat 2, ENSURE_CORRECT_CACHE_SIZING := None,
                   CACHES := []\<rparr>)" by simp
  from reset_clears_everything [OF b1 refl b3]
  have "reset example_runtime ?os ?t =
          Returns (?t\<lparr>DEFAULT_CACHE_SIZE_FACTOR := PFloat 2, ENSURE_CORRECT_CACHE_SIZING := None,
                   CACHES := []\<rparr>)" by simp
  then have second: "DEFAULT_CACHE_SIZE_FACTOR (state_of (reset example_runtime ?os ?t)) = PFloat 2"
    by simp
  from unset first k c before second show ?thesis by simp
qed

text \<open>
  C10. A boolean passes \<^verbatim>\<open>isinstance(x, (int, float))\<close>, at line 80 and at line 103. So,
  for the \<^verbatim>\<open>caches\<close> section \<open>cc\<close> of any configuration:
  \<^item> when \<^verbatim>\<open>caches.global_factor\<close> is a boolean, the load never raises the error of line
    81;
  \<^item> when the entries of the file's mapping for a name all hold booleans, the load never
    raises the error of line 104 for that name;
  \<^item> when the global factor is a boolean or a number and every value of the file's mapping
    is a boolean or a number, under keys that are strings, and the other steps pass
    (\<^verbatim>\<open>parse_size\<close> returns, the factors of the environment convert), the load returns and
    every registered cache is resized with \<^verbatim>\<open>cache_factors.get(name, global_factor)\<close>. A
    boolean \<^verbatim>\<open>caches.global_factor\<close> is then the global factor, and a name whose entries in
    the file all hold the same boolean has that boolean as its factor.
\<close>

theorem booleans_pass_as_numbers:
  assumes "dict_get_default config (PStr ''caches'') (PDict []) = PDict cc"
    and "g = dict_get_default cc (PStr ''global_factor'') (DEFAULT_CACHE_SIZE_FACTOR s)"
  shows "is_number (PBool b) \<and>
         (dict_get cc (PStr ''global_factor'') = Some (PBool b) \<longrightarrow>
            raised (read_config rt self environ config s)
              \<noteq> Some (ConfigError ''caches.global_factor must be a number.'')) \<and>
         (py_or rt (dict_get_default cc (PStr ''per_cache_factors'') (PDict [])) (PDict []) = PDict d \<and>
          (\<forall>(k', v') \<in> set d. str_lower k' = Some n \<longrightarrow> (\<exists>b0. v' = PBool b0)) \<longrightarrow>
            raised (read_config rt self environ config s)
              \<noteq> Some (ConfigError (not_a_number_message n))) \<and>
         (parse_size rt (dict_get_default config (PStr ''event_cache_size'') (PStr ''10K''))
            = Some sz \<and>
          ((\<exists>b0. g = PBool b0) \<or> is_number g) \<and>
          environ_factors rt environ [] = Some ef \<and>
          py_or rt (dict_get_default cc (PStr ''per_cache_factors'') (PDict [])) (PDict []) = PDict d \<and>
          (\<forall>e \<in> set d. (\<exists>c. fst e = PStr c) \<and> ((\<exists>b0. snd e = PBool b0) \<or> is_number (snd e))) \<longrightarrow>
          (\<exists>s' m. read_config rt self environ config s = Returns s' \<and>
            global_factor (objs s' self) = Some g \<and>
            DEFAULT_CACHE_SIZE_FACTOR s' = g \<and>
            cache_factors (objs s' self) = Some m \<and>
            calls s' = calls s @
              map (\<lambda>(name, callback). (callback, dict_get_default m name g)) (CACHES s) \<and>
            (dict_get cc (PStr ''global_factor'') = Some (PBool b) \<longrightarrow> g = PBool b) \<and>
            ((PStr k, PBool b') \<in> set d \<and>
             (\<forall>(k', v') \<in> set d. str_lower k' = Some (lower k) \<longrightarrow> v' = PBool b')
               \<longrightarrow> dict_get m (lower k) = Some (PBool b'))))"
proof -
  let ?r = "read_config rt self environ config s"
  have partA: "is_number (PBool b)" by simp
  have partB: "raised ?r \<noteq> Some (ConfigError ''caches.global_factor must be a number.'')"
    if gb: "dict_get cc (PStr ''global_factor'') = Some (PBool b)"
  proof -
    from gb have "is_number (dict_get_default cc (PStr ''global_factor'') (DEFAULT_CACHE_SIZE_FACTOR s))"
      by (simp add: dict_get_default_def)
    with assms(1) show ?thesis
      by (cases rule: read_config_cases [of rt config self environ s])
         (auto dest: factors_loop_not_global)
  qed
  have partC: "raised ?r \<noteq> Some (ConfigError (not_a_number_message n))"
    if d: "py_or rt (dict_get_default cc (PStr ''per_cache_factors'') (PDict [])) (PDict []) = PDict d"
      and bools: "\<forall>(k', v') \<in> set d. str_lower k' = Some n \<longrightarrow> (\<exists>b0. v' = PBool b0)"
  proof (cases rule: read_config_cases [of rt config self environ s])
    case (bad_factor sz' cc' g' ef' d' m e)
    from bad_factor(2) assms(1) have "cc' = cc" by simp
    with bad_factor(6) d have dd: "d' = d" by simp
    have "e \<noteq> ConfigError (not_a_number_message n)"
    proof
      assume en: "e = ConfigError (not_a_number_message n)"
      from bad_factor(7) have "snd (factors_loop (dict_update ef' d) []) = Some e"
        unfolding dd by simp
      with en obtain e0 where f: "find (\<lambda>e. \<not> is_number (snd e) \<or> str_lower (fst e) = None)
                                    (dict_update ef' d) = Some e0"
        and nm: "str_lower (fst e0) = Some n"
        unfolding factors_loop_error
        by (auto simp: not_a_number_message_inj split: option.splits)
      from f have mem: "e0 \<in> set (dict_update ef' d)"
        and bad: "\<not> is_number (snd e0) \<or> str_lower (fst e0) = None"
        by (auto simp: find_Some_iff)
      from bad nm have nn: "\<not> is_number (snd e0)" by simp
      from mem set_dict_update [of ef' d] have "e0 \<in> set ef' \<or> e0 \<in> set d" by auto
      then show False
      proof
        assume "e0 \<in> set ef'"
        with environ_factors_numbers [OF bad_factor(5)] nn show False by simp
      next
        assume "e0 \<in> set d"
        with bools nm obtain b0 where "snd e0 = PBool b0" by (cases e0) auto
        with nn show False by simp
      qed
    qed
    with bad_factor(8) show ?thesis by simp
  qed simp_all
  have partD: "\<exists>s' m. read_config rt self environ config s = Returns s' \<and>
            global_factor (objs s' self) = Some g \<and>
            DEFAULT_CACHE_SIZE_FACTOR s' = g \<and>
            cache_factors (objs s' self) = Some m \<and>
            calls s' = calls s @
              map (\<lambda>(name, callback). (callback, dict_get_default m name g)) (CACHES s) \<and>
            (dict_get cc (PStr ''global_factor'') = Some (PBool b) \<longrightarrow> g = PBool b) \<and>
            ((PStr k, PBool b') \<in> set d \<and>
             (\<forall>(k', v') \<in> set d. str_lower k' = Some (lower k) \<longrightarrow> v' = PBool b')
               \<longrightarrow> dict_get m (lower k) = Some (PBool b'))"
    if size: "parse_size rt (dict_get_default config (PStr ''event_cache_size'') (PStr ''10K''))
                = Some sz"
      and gnum: "(\<exists>b0. g = PBool b0) \<or> is_number g"
      and env: "environ_factors rt environ [] = Some ef"
      and d: "py_or rt (dict_get_default cc (PStr ''per_cache_factors'') (PDict [])) (PDict []) = PDict d"
      and all: "\<forall>e \<in> set d. (\<exists>c. fst e = PStr c) \<and> ((\<exists>b0. snd e = PBool b0) \<or> is_number (snd e))"
  proof -
    from gnum have num: "is_number g" by auto
    have vals: "\<forall>e \<in> set d. is_number (snd e) \<and> str_lower (fst e) \<noteq> None"
    proof
      fix e assume "e \<in> set d"
      with all obtain c where "fst e = PStr c"
        and "(\<exists>b0. snd e = PBool b0) \<or> is_number (snd e)" by blast
      then show "is_number (snd e) \<and> str_lower (fst e) \<noteq> None" by auto
    qed
    have "returns ?r"
      by (rule read_config_returns [OF size assms(1) _ env d vals])
         (use num assms(2) in simp)
    then have r: "?r = Returns (state_of ?r)" by (rule returns_state_of)
    from r obtain sz' cc' ef' d' m where
      cc': "dict_get_default config (PStr ''caches'') (PDict []) = PDict cc'"
      and ef': "environ_factors rt environ [] = Some ef'"
      and d': "py_or rt (dict_get_default cc' (PStr ''per_cache_factors'') (PDict [])) (PDict [])
                 = PDict d'"
      and loop: "factors_loop (dict_update ef' d') [] = (m, None)"
      and gf: "global_factor (objs (state_of ?r) self) =
         Some (dict_get_default cc' (PStr ''global_factor'') (DEFAULT_CACHE_SIZE_FACTOR s))"
      and m: "cache_factors (objs (state_of ?r) self) = Some m"
      and df: "DEFAULT_CACHE_SIZE_FACTOR (state_of ?r) =
         dict_get_default cc' (PStr ''global_factor'') (DEFAULT_CACHE_SIZE_FACTOR s)"
      and calls: "calls (state_of ?r) = calls s @
         map (\<lambda>(name, callback).
                (callback, dict_get_default m name
                   (dict_get_default cc' (PStr ''global_factor'') (DEFAULT_CACHE_SIZE_FACTOR s))))
           (CACHES s)"
      by (rule read_config_Returns)
    from assms(1) cc' have e1: "cc' = cc" by simp
    with d d' have e2: "d' = d" by simp
    have g: "dict_get_default cc (PStr ''global_factor'') (DEFAULT_CACHE_SIZE_FACTOR s) = g"
      using assms(2) by simp
    have gb: "dict_get cc (PStr ''global_factor'') = Some (PBool b) \<longrightarrow> g = PBool b"
      unfolding assms(2) by (simp add: dict_get_default_def)
    have "str_lower (PStr k) = Some (lower k)" by simp
    then have "(PStr k, PBool b') \<in> set d \<and>
           (\<forall>(k', v') \<in> set d. str_lower k' = Some (lower k) \<longrightarrow> v' = PBool b')
                 \<longrightarrow> dict_get m (lower k) = Some (PBool b')"
      using merged_factor [OF ef' loop [unfolded e2], of "PStr k" "PBool b'" "lower k"] by blast
    with r gf [unfolded e1 g] m df [unfolded e1 g] calls [unfolded e1 g] gb
    show ?thesis by blast
  qed
  from partA partB partC partD show ?thesis by blast
qed

text \<open>Two instances, one for each place a boolean can stand in. With
  \<^verbatim>\<open>global_factor: true\<close> alone the registered cache receives \<^verbatim>\<open>True\<close>. With
  \<^verbatim>\<open>per_cache_factors: {A: true}\<close> alone the cache \<^verbatim>\<open>a\<close> receives \<^verbatim>\<open>True\<close> and the other
  cache the default 0.5.\<close>

theorem booleans_pass_as_numbers_witness:
  "calls (state_of (read_config example_runtime 0 []
      [(PStr ''caches'', PDict [(PStr ''global_factor'', PBool True)])]
      (run example_runtime [Register ''other'' 8] example_state)))
    = [(8, PBool True)]
   \<and> calls (state_of (read_config example_runtime 0 []
      [(PStr ''caches'', PDict [(PStr ''per_cache_factors'', PDict [(PStr ''A'', PBool True)])])]
      (run example_runtime [Register ''other'' 8, Register ''a'' 1] example_state)))
    = [(8, PFloat (1 / 2)), (1, PBool True)]"
proof -
  let ?cc = "[(PStr ''global_factor'', PBool True)] :: rat pydict"
  let ?config = "[(PStr ''caches'', PDict ?cc)] :: rat pydict"
  let ?s = "run example_runtime [Register ''other'' 8] example_state :: (rat, nat) state"
  have a1: "parse_size example_runtime
              (dict_get_default ?config (PStr ''event_cache_size'') (PStr ''10K''))
              = Some (PInt 10240)" by code_simp
  have a2: "dict_get_default ?config (PStr ''caches'') (PDict []) = PDict ?cc" by code_simp
  have a3: "PBool True = dict_get_default ?cc (PStr ''global_factor'') (DEFAULT_CACHE_SIZE_FACTOR ?s)"
    by code_simp
  have a4: "(\<exists>b0. (PBool True :: rat pyval) = PBool b0) \<or> is_number (PBool True :: rat pyval)"
    by simp
  have a5: "environ_factors example_runtime [] [] = Some []" by simp
  have a6: "py_or example_runtime (dict_get_default ?cc (PStr ''per_cache_factors'') (PDict []))
              (PDict []) = PDict []" by code_simp
  have a7: "\<forall>e \<in> set ([] :: rat pydict).
              (\<exists>c. fst e = PStr c) \<and> ((\<exists>b0. snd e = PBool b0) \<or> is_number (snd e))" by simp
  from booleans_pass_as_numbers [OF a2 a3, where rt = example_runtime and self = 0
         and environ = "[]" and sz = "PInt 10240" and ef = "[]" and d = "[]"]
    a1 a4 a5 a6 a7
  obtain s' m where r: "read_config example_runtime 0 [] ?config ?s = Returns s'"
    and calls: "calls s' = calls ?s @
              map (\<lambda>(name, callback). (callback, dict_get_default m name (PBool True))) (CACHES ?s)"
    and m': "cache_factors (objs s' 0) = Some m"
    by blast
  have s: "calls ?s = []" "CACHES ?s = [(''other'', 8)]" by code_simp+
  have "cache_factors (objs (state_of (read_config example_runtime 0 [] ?config ?s)) 0) = Some []"
    by code_simp
  with r m' have "m = []" by simp
  with calls s have "calls s' = [(8, PBool True)]" by (simp add: dict_get_default_def)
  with r have first: "calls (state_of (read_config example_runtime 0 [] ?config ?s))
                        = [(8, PBool True)]" by simp
  let ?d = "[(PStr ''A'', PBool True)] :: rat pydict"
  let ?cc2 = "[(PStr ''per_cache_factors'', PDict ?d)] :: rat pydict"
  let ?config2 = "[(PStr ''caches'', PDict ?cc2)] :: rat pydict"
  let ?s2 = "run example_runtime [Register ''other'' 8, Register ''a'' 1] example_state
               :: (rat, nat) state"
  have b1: "parse_size example_runtime
              (dict_get_default ?config2 (PStr ''event_cache_size'') (PStr ''10K''))
              = Some (PInt 10240)" by code_simp
  have b2: "dict_get_default ?config2 (PStr ''caches'') (PDict []) = PDict ?cc2" by code_simp
  have b3: "PFloat (1 / 2) =
              dict_get_default ?cc2 (PStr ''global_factor'') (DEFAULT_CACHE_SIZE_FACTOR ?s2)"
    by code_simp
  have b4: "(\<exists>b0. (PFloat (1 / 2) :: rat pyval) = PBool b0) \<or> is_number (PFloat (1 / 2) :: rat pyval)"
    by simp
  have b6: "py_or example_runtime (dict_get_default ?cc2 (PStr ''per_cache_factors'') (PDict []))
              (PDict []) = PDict ?d" by code_simp
  have b7: "\<forall>e \<in> set ?d.
              (\<exists>c. fst e = PStr c) \<and> ((\<exists>b0. snd e = PBool b0) \<or> is_number (snd e))" by simp
  have k: "(PStr ''A'', PBool True) \<in> set ?d \<and>
           (\<forall>(k', v') \<in> set ?d. str_lower k' = Some (lower ''A'') \<longrightarrow> v' = PBool True)" by simp
  have l: "lower ''A'' = ''a''" by code_simp
  from booleans_pass_as_numbers [OF b2 b3, where rt = example_runtime and self = 0
         and environ = "[]" and sz = "PInt 10240" and ef = "[]" and d = ?d
         and b' = True and k = "''A''"]
    b1 b4 a5 b6 b7 k
  obtain t' m2 where r2: "read_config example_runtime 0 [] ?config2 ?s2 = Returns t'"
    and calls2: "calls t' = calls ?s2 @
              map (\<lambda>(name, callback). (callback, dict_get_default m2 name (PFloat (1 / 2))))
                (CACHES ?s2)"
    and m2: "dict_get m2 (lower ''A'') = Some (PBool True)"
    and m2': "cache_factors (objs t' 0) = Some m2"
    by blast
  have s2: "calls ?s2 = []" "CACHES ?s2 = [(''other'', 8), (''a'', 1)]" by code_simp+
  have "cache_factors (objs (state_of (read_config example_runtime 0 [] ?config2 ?s2)) 0)
          = Some [(''a'', PBool True)]" by code_simp
  with r2 m2' have "m2 = [(''a'', PBool True)]" by simp
  with calls2 s2 have "calls t' = [(8, PFloat (1 / 2)), (1, PBool True)]"
    by (simp add: dict_get_default_def)
  with r2 have "calls (state_of (read_config example_runtime 0 [] ?config2 ?s2))
                  = [(8, PFloat (1 / 2)), (1, PBool True)]" by simp
  with first show ?thesis by simp
qed

end
